theory Spec2Isabelle
  imports Main
begin

section \<open>The status parser of \<^verbatim>\<open>src/git/git.ts\<close>\<close>

subsection \<open>Strings as the parser reads them\<close>

text \<open>
  A status text is a list of characters. The three JavaScript string operations the
  parser relies on are total: \<^verbatim>\<open>charAt\<close> answers the empty string outside the text,
  \<^verbatim>\<open>substring\<close> clamps both indices to the length of the text and swaps them when they
  come in the wrong order.
\<close>

definition NUL :: char where
  "NUL = CHR 0x00"

definition charAt :: "string \<Rightarrow> nat \<Rightarrow> string" where
  "charAt s i = (if i < length s then [s ! i] else [])"

definition substring :: "string \<Rightarrow> nat \<Rightarrow> nat \<Rightarrow> string" where
  "substring s a b =
     (let a' = min a (length s); b' = min b (length s);
          lo = min a' b'; hi = max a' b'
      in take (hi - lo) (drop lo s))"

subsection \<open>\<^verbatim>\<open>IFileStatus\<close> and \<^verbatim>\<open>Repository.getStatus\<close>\<close>

text \<open>
  The fields \<^verbatim>\<open>x\<close> and \<^verbatim>\<open>y\<close> hold what \<^verbatim>\<open>charAt\<close> answered: a string of one
  character, or the empty string past the end of the text. \<^verbatim>\<open>rename\<close> is the optional
  field of the interface.
\<close>

record IFileStatus =
  x :: string
  y :: string
  path :: string
  rename :: "string option"

text \<open>
  \<^verbatim>\<open>readName\<close> scans from the cursor to the next NUL. Its loop compares
  \<^verbatim>\<open>status.charAt(i)\<close> with the NUL character only, so it has no exit at the end of
  the text: the function is partial, and \<open>None\<close> stands for a scan that never returns.
  The cursor \<open>i\<close> that the closure shares with the caller is passed in and handed back.
\<close>

partial_function (option) readName :: "string \<Rightarrow> nat \<Rightarrow> nat \<Rightarrow> (string \<times> nat) option" where
  "readName status start i =
     (if charAt status i \<noteq> [NUL] then readName status start (i + 1)
      else Some (substring status start i, i + 1))"

declare readName.simps [code]

text \<open>
  \<^verbatim>\<open>current.path[current.path.length - 1] === '/'\<close>: an empty path has no last
  character (the index expression is \<^verbatim>\<open>undefined\<close> there), so it is not a directory.
\<close>

definition ends_with_slash :: "string \<Rightarrow> bool" where
  "ends_with_slash p = (p \<noteq> [] \<and> p ! (length p - 1) = CHR ''/'')"

text \<open>
  One pass through the body of the \<^verbatim>\<open>while\<close> loop of \<^verbatim>\<open>getStatus\<close>, from the
  cursor \<open>i\<close> and the entries collected so far to the new cursor and entries.
\<close>

definition getStatus_body :: "string \<Rightarrow> nat \<Rightarrow> IFileStatus list \<Rightarrow> (nat \<times> IFileStatus list) option" where
  "getStatus_body status i result =
     (let cx = charAt status i; cy = charAt status (i + 1); i1 = i + 3 in
      Option.bind (if cx = ''R''
                   then map_option (\<lambda>(n, j). (Some n, j)) (readName status i1 i1)
                   else Some (None, i1))
        (\<lambda>(rn, i2).
           Option.bind (readName status i2 i2)
             (\<lambda>(p, i3).
                if ends_with_slash p then Some (i3, result)
                else Some (i3, result @ [\<lparr>x = cx, y = cy, path = p, rename = rn\<rparr>]))))"

partial_function (option) getStatus_loop :: "string \<Rightarrow> nat \<Rightarrow> IFileStatus list \<Rightarrow> IFileStatus list option" where
  "getStatus_loop status i result =
     (if i < length status
      then Option.bind (getStatus_body status i result)
             (\<lambda>(i', result'). getStatus_loop status i' result')
      else Some result)"

declare getStatus_loop.simps [code]

text \<open>The parse of the standard output of \<^verbatim>\<open>git status -z -u\<close>.\<close>

definition getStatus_parse :: "string \<Rightarrow> IFileStatus list option" where
  "getStatus_parse status = getStatus_loop status 0 []"

subsection \<open>The wire format of a status text\<close>

text \<open>
  A record on the wire: two status characters, one separator character, the rename source
  when the index status is \<open>R\<close>, and the path, each field closed by a NUL. A record is
  well formed when its fields hold no NUL and its rename source is there exactly when the
  index status is \<open>R\<close>.
\<close>

record wire_record =
  rec_x :: char
  rec_y :: char
  rec_sep :: char
  rec_rename :: "string option"
  rec_path :: string

definition wf_record :: "wire_record \<Rightarrow> bool" where
  "wf_record r =
     (NUL \<notin> set (rec_path r) \<and>
      (case rec_rename r of
         None \<Rightarrow> rec_x r \<noteq> CHR ''R''
       | Some src \<Rightarrow> rec_x r = CHR ''R'' \<and> NUL \<notin> set src))"

definition encode_record :: "wire_record \<Rightarrow> string" where
  "encode_record r =
     [rec_x r, rec_y r, rec_sep r]
     @ (case rec_rename r of None \<Rightarrow> [] | Some src \<Rightarrow> src @ [NUL])
     @ rec_path r @ [NUL]"

definition encode_status :: "wire_record list \<Rightarrow> string" where
  "encode_status recs = concat (map encode_record recs)"

definition is_directory_marker :: "wire_record \<Rightarrow> bool" where
  "is_directory_marker r = (rec_path r \<noteq> [] \<and> last (rec_path r) = CHR ''/'')"

definition entry_of :: "wire_record \<Rightarrow> IFileStatus" where
  "entry_of r = \<lparr>x = [rec_x r], y = [rec_y r], path = rec_path r, rename = rec_rename r\<rparr>"

text \<open>The synthetic status text of a list of (statusX, statusY, path) triples.\<close>

definition triple_text :: "char \<Rightarrow> char \<times> char \<times> string \<Rightarrow> string" where
  "triple_text sep t = (case t of (cx, cy, p) \<Rightarrow> [cx, cy, sep] @ p @ [NUL])"

definition status_text_of :: "char \<Rightarrow> (char \<times> char \<times> string) list \<Rightarrow> string" where
  "status_text_of sep ts = concat (map (triple_text sep) ts)"

definition triple_entry :: "char \<times> char \<times> string \<Rightarrow> IFileStatus" where
  "triple_entry t = (case t of (cx, cy, p) \<Rightarrow> \<lparr>x = [cx], y = [cy], path = p, rename = None\<rparr>)"

definition plain_triple :: "char \<times> char \<times> string \<Rightarrow> bool" where
  "plain_triple t =
     (case t of (cx, cy, p) \<Rightarrow>
        cx \<noteq> CHR ''R'' \<and> NUL \<notin> set p \<and> \<not> (p \<noteq> [] \<and> last p = CHR ''/''))"

section \<open>The argument list of \<^verbatim>\<open>Repository.config\<close>\<close>

text \<open>
  The parameter \<^verbatim>\<open>value\<close> of \<^verbatim>\<open>Repository.config\<close> is declared \<^verbatim>\<open>any\<close>, and the code
  tests it for truthiness. The values are the primitive ones (numbers are the integers and
  \<^verbatim>\<open>NaN\<close>); the argument list holds them as they are pushed, so its elements are values.
\<close>

datatype js_value = JUndefined | JNull | JBool bool | JNum int | JNaN | JStr string

fun truthy :: "js_value \<Rightarrow> bool" where
  "truthy JUndefined = False"
| "truthy JNull = False"
| "truthy (JBool b) = b"
| "truthy (JNum n) = (n \<noteq> 0)"
| "truthy JNaN = False"
| "truthy (JStr s) = (s \<noteq> [])"

text \<open>
  \<^verbatim>\<open>args = ['config']\<close>, then the scope when it is a non-empty string, the key, and the
  value when it is truthy.
\<close>

definition config_args :: "string \<Rightarrow> string \<Rightarrow> js_value \<Rightarrow> js_value list" where
  "config_args scope key val =
     [JStr ''config'']
     @ (if scope \<noteq> [] then [JStr (''--'' @ scope)] else [])
     @ [JStr key]
     @ (if truthy val then [val] else [])"

definition configGet_args :: "string \<Rightarrow> string \<Rightarrow> string list" where
  "configGet_args scope key =
     [''config''] @ (if scope \<noteq> [] then [''--'' @ scope] else []) @ [''--get''] @ [key]"

section \<open>Classification of the standard error text\<close>

text \<open>
  The six tests of \<^verbatim>\<open>Git._exec\<close> are regular expressions without metacharacters (one of
  them an alternative of two): each asks whether a fixed text occurs somewhere in the
  standard error text.
\<close>

fun starts_with :: "string \<Rightarrow> string \<Rightarrow> bool" where
  "starts_with [] s = True"
| "starts_with (p # ps) [] = False"
| "starts_with (p # ps) (c # cs) = (p = c \<and> starts_with ps cs)"

fun regex_test :: "string \<Rightarrow> string \<Rightarrow> bool" where
  "regex_test pat [] = (pat = [])"
| "regex_test pat (c # cs) = (starts_with pat (c # cs) \<or> regex_test pat cs)"

text \<open>
  The members of \<^verbatim>\<open>GitErrorCodes\<close> that \<^verbatim>\<open>Git._exec\<close> assigns; they are strings.
\<close>

definition BadConfigFile :: string where "BadConfigFile = ''BadConfigFile''"

definition AuthenticationFailed :: string where "AuthenticationFailed = ''AuthenticationFailed''"

definition NotAGitRepository :: string where "NotAGitRepository = ''NotAGitRepository''"

definition CantCreatePipe :: string where "CantCreatePipe = ''CantCreatePipe''"

definition CantAccessRemote :: string where "CantAccessRemote = ''CantAccessRemote''"

definition RepositoryNotFound :: string where "RepositoryNotFound = ''RepositoryNotFound''"

text \<open>
  The \<^verbatim>\<open>if\<close> chain of \<^verbatim>\<open>Git._exec\<close>, in its order; \<open>None\<close> is the code left \<^verbatim>\<open>undefined\<close>.
\<close>

definition gitErrorCode_of :: "string \<Rightarrow> string option" where
  "gitErrorCode_of err =
     (if regex_test ''Authentication failed'' err then Some AuthenticationFailed
      else if regex_test ''Not a git repository'' err then Some NotAGitRepository
      else if regex_test ''bad config file'' err then Some BadConfigFile
      else if regex_test ''cannot make pipe for command substitution'' err
              \<or> regex_test ''cannot create standard input pipe'' err then Some CantCreatePipe
      else if regex_test ''Repository not found'' err then Some RepositoryNotFound
      else if regex_test ''unable to access'' err then Some CantAccessRemote
      else None)"

section \<open>The three-way join \<^verbatim>\<open>exec\<close> over a child process\<close>

subsection \<open>Promises\<close>

text \<open>
  A promise is pending, resolved with a value or rejected with an error; settling a
  promise that is settled already changes nothing.
\<close>

datatype js_error = JsError string

datatype ('e, 'a) promise = Pending | Resolved 'a | Rejected 'e

definition resolve :: "'a \<Rightarrow> ('e, 'a) promise \<Rightarrow> ('e, 'a) promise" where
  "resolve v p = (case p of Pending \<Rightarrow> Resolved v | _ \<Rightarrow> p)"

definition reject :: "'e \<Rightarrow> ('e, 'a) promise \<Rightarrow> ('e, 'a) promise" where
  "reject e p = (case p of Pending \<Rightarrow> Rejected e | _ \<Rightarrow> p)"

text \<open>
  \<^verbatim>\<open>Promise.all\<close> of three promises: rejected as soon as one of them is, resolved with the
  three values once all are resolved, pending otherwise.
\<close>

definition promise_all3 ::
  "('e, 'a) promise \<Rightarrow> ('e, 'b) promise \<Rightarrow> ('e, 'c) promise \<Rightarrow> ('e, 'a \<times> 'b \<times> 'c) promise" where
  "promise_all3 pa pb pc =
     (case pa of Rejected e \<Rightarrow> Rejected e
      | _ \<Rightarrow> (case pb of Rejected e \<Rightarrow> Rejected e
        | _ \<Rightarrow> (case pc of Rejected e \<Rightarrow> Rejected e
          | _ \<Rightarrow> (case (pa, pb, pc) of
                   (Resolved a, Resolved b, Resolved c) \<Rightarrow> Resolved (a, b, c)
                 | _ \<Rightarrow> Pending))))"

text \<open>
  The exit code that the \<^verbatim>\<open>exit\<close> event of a child carries is a number, or
  \<^verbatim>\<open>null\<close> (here \<open>None\<close>) when a signal ended the child. The code tests it for
  truthiness: \<^verbatim>\<open>if (result.exitCode)\<close> and \<^verbatim>\<open>code ? ... : ...\<close> take 0 and
  \<^verbatim>\<open>null\<close> alike.
\<close>

definition code_truthy :: "int option \<Rightarrow> bool" where
  "code_truthy code = (case code of None \<Rightarrow> False | Some c \<Rightarrow> c \<noteq> 0)"

record IExecutionResult =
  exitCode :: "int option"
  stdout :: string
  stderr :: string

subsection \<open>Event emitters and listeners\<close>

text \<open>
  The child process has three event emitters: the process itself and its two output
  streams. \<^verbatim>\<open>exec\<close> registers six closures on them; \<open>callback\<close> names them in the order
  of the source. A listener is a registration of one closure for one event name on one
  emitter, made by \<^verbatim>\<open>once\<close> or by \<^verbatim>\<open>on\<close>.
\<close>

datatype emitter = Child | ChildStdout | ChildStderr

datatype callback = RejectExit | ResolveExit | PushStdout | CloseStdout | PushStderr | CloseStderr

record listener =
  target :: emitter
  event_name :: string
  handler :: callback
  is_once :: bool

text \<open>
  What the child does is a list of events, in the order in which the event loop delivers
  them. The payload of a \<^verbatim>\<open>data\<close> event is the text of the chunk.
\<close>

datatype child_event =
    ChildError js_error
  | ChildExit "int option"
  | StdoutData string
  | StdoutClose
  | StderrData string
  | StderrClose

fun event_target :: "child_event \<Rightarrow> emitter" where
  "event_target (ChildError e) = Child"
| "event_target (ChildExit c) = Child"
| "event_target (StdoutData b) = ChildStdout"
| "event_target StdoutClose = ChildStdout"
| "event_target (StderrData b) = ChildStderr"
| "event_target StderrClose = ChildStderr"

fun event_label :: "child_event \<Rightarrow> string" where
  "event_label (ChildError e) = ''error''"
| "event_label (ChildExit c) = ''exit''"
| "event_label (StdoutData b) = ''data''"
| "event_label StdoutClose = ''close''"
| "event_label (StderrData b) = ''data''"
| "event_label StderrClose = ''close''"

text \<open>
  The state of one invocation of \<^verbatim>\<open>exec\<close>: the listeners it has registered and that are
  still attached, its array \<^verbatim>\<open>disposables\<close>, the three promises of the join with the two
  buffer arrays of the stream promises, and the promise that the \<^verbatim>\<open>async\<close> function has
  returned to its caller.
\<close>

record exec_state =
  listeners :: "listener list"
  disposables :: "(emitter \<times> string \<times> callback) list"
  exit_promise :: "(js_error, int option) promise"
  stdout_promise :: "(js_error, string) promise"
  stderr_promise :: "(js_error, string) promise"
  stdout_buffers :: "string list"
  stderr_buffers :: "string list"
  returned :: "(js_error, IExecutionResult) promise"

text \<open>
  The local helpers \<^verbatim>\<open>once\<close> and \<^verbatim>\<open>on\<close>: register the listener and push a disposable
  that removes it.
\<close>

definition once :: "emitter \<Rightarrow> string \<Rightarrow> callback \<Rightarrow> exec_state \<Rightarrow> exec_state" where
  "once ee name fn st =
     st\<lparr>listeners := listeners st @ [\<lparr>target = ee, event_name = name, handler = fn, is_once = True\<rparr>],
        disposables := disposables st @ [(ee, name, fn)]\<rparr>"

definition on :: "emitter \<Rightarrow> string \<Rightarrow> callback \<Rightarrow> exec_state \<Rightarrow> exec_state" where
  "on ee name fn st =
     st\<lparr>listeners := listeners st @ [\<lparr>target = ee, event_name = name, handler = fn, is_once = False\<rparr>],
        disposables := disposables st @ [(ee, name, fn)]\<rparr>"

text \<open>
  \<^verbatim>\<open>removeListener\<close> takes away at most one registration of the closure for the event
  name, the one added last. \<^verbatim>\<open>dispose\<close> runs every disposable.
\<close>

definition listens :: "emitter \<Rightarrow> string \<Rightarrow> callback \<Rightarrow> listener \<Rightarrow> bool" where
  "listens ee name fn l = (target l = ee \<and> event_name l = name \<and> handler l = fn)"

fun removeListener :: "emitter \<Rightarrow> string \<Rightarrow> callback \<Rightarrow> listener list \<Rightarrow> listener list" where
  "removeListener ee name fn [] = []"
| "removeListener ee name fn (l # ls) =
     (if list_ex (listens ee name fn) ls then l # removeListener ee name fn ls
      else if listens ee name fn l then ls
      else l # ls)"

definition dispose :: "(emitter \<times> string \<times> callback) list \<Rightarrow> listener list \<Rightarrow> listener list" where
  "dispose ds ls = fold (\<lambda>(ee, name, fn). removeListener ee name fn) ds ls"

text \<open>
  What each closure does when its event arrives.
\<close>

fun call :: "callback \<Rightarrow> child_event \<Rightarrow> exec_state \<Rightarrow> exec_state" where
  "call RejectExit (ChildError e) st = st\<lparr>exit_promise := reject e (exit_promise st)\<rparr>"
| "call ResolveExit (ChildExit c) st = st\<lparr>exit_promise := resolve c (exit_promise st)\<rparr>"
| "call PushStdout (StdoutData b) st = st\<lparr>stdout_buffers := stdout_buffers st @ [b]\<rparr>"
| "call CloseStdout StdoutClose st =
     st\<lparr>stdout_promise := resolve (concat (stdout_buffers st)) (stdout_promise st)\<rparr>"
| "call PushStderr (StderrData b) st = st\<lparr>stderr_buffers := stderr_buffers st @ [b]\<rparr>"
| "call CloseStderr StderrClose st =
     st\<lparr>stderr_promise := resolve (concat (stderr_buffers st)) (stderr_promise st)\<rparr>"
| "call fn ev st = st"

text \<open>
  An emitter calls, in the order of registration, the listeners registered for the event
  name; a listener registered by \<^verbatim>\<open>once\<close> is taken off before it is called.
\<close>

definition receives :: "child_event \<Rightarrow> listener \<Rightarrow> bool" where
  "receives ev l = (target l = event_target ev \<and> event_name l = event_label ev)"

definition emit :: "child_event \<Rightarrow> exec_state \<Rightarrow> exec_state" where
  "emit ev st =
     (let called = filter (receives ev) (listeners st);
          st' = st\<lparr>listeners := filter (\<lambda>l. \<not> (receives ev l \<and> is_once l)) (listeners st)\<rparr>
      in fold (\<lambda>l. call (handler l) ev) called st')"

subsection \<open>The function \<^verbatim>\<open>exec\<close>\<close>

text \<open>
  The body up to the \<^verbatim>\<open>await\<close>: the three promise executors run at once and register
  the six listeners.
\<close>

definition exec_start :: exec_state where
  "exec_start =
     (once ChildStderr ''close'' CloseStderr
     (on ChildStderr ''data'' PushStderr
     (once ChildStdout ''close'' CloseStdout
     (on ChildStdout ''data'' PushStdout
     (once Child ''exit'' ResolveExit
     (once Child ''error'' RejectExit
        \<lparr>listeners = [], disposables = [],
         exit_promise = Pending, stdout_promise = Pending, stderr_promise = Pending,
         stdout_buffers = [], stderr_buffers = [], returned = Pending\<rparr>))))))"

text \<open>
  The rest of the body runs when the join has settled. When the join is resolved,
  \<^verbatim>\<open>dispose(disposables)\<close> runs and the result is returned. When the join is rejected,
  the \<^verbatim>\<open>await\<close> throws, the statements after it are skipped and the returned promise is
  rejected with the same error.
\<close>

definition exec_resume :: "exec_state \<Rightarrow> exec_state" where
  "exec_resume st =
     (case promise_all3 (exit_promise st) (stdout_promise st) (stderr_promise st) of
        Pending \<Rightarrow> st
      | Rejected e \<Rightarrow> st\<lparr>returned := Rejected e\<rparr>
      | Resolved (c, out, err) \<Rightarrow>
          st\<lparr>listeners := dispose (disposables st) (listeners st),
             returned := Resolved \<lparr>exitCode = c, stdout = out, stderr = err\<rparr>\<rparr>)"

text \<open>
  One event: the emitter calls its listeners; if the function is still suspended at the
  \<^verbatim>\<open>await\<close> it resumes when the join has settled, before the next event is delivered.
\<close>

definition exec_step :: "child_event \<Rightarrow> exec_state \<Rightarrow> exec_state" where
  "exec_step ev st =
     (let st' = emit ev st in if returned st' = Pending then exec_resume st' else st')"

text \<open>
  \<^verbatim>\<open>exec\<close> over a child that has both of its output streams and emits the events of the
  list.
\<close>

definition exec :: "child_event list \<Rightarrow> exec_state" where
  "exec evs = fold exec_step evs exec_start"

text \<open>
  The child as \<^verbatim>\<open>cp.spawn\<close> hands it over. Each of \<^verbatim>\<open>child.stdin\<close>, \<^verbatim>\<open>child.stdout\<close>
  and \<^verbatim>\<open>child.stderr\<close> is a stream, or \<^verbatim>\<open>null\<close> when the \<^verbatim>\<open>stdio\<close> configuration of
  the request gives the child no pipe there.
\<close>

record child_process =
  has_stdin :: bool
  has_stdout :: bool
  has_stderr :: bool
  emitted :: "child_event list"

text \<open>
  A method call on \<^verbatim>\<open>null\<close> throws a type error; the message is the engine's.
\<close>

definition null_stream_error :: js_error where
  "null_stream_error = JsError ''TypeError: Cannot read property of null''"

text \<open>
  \<^verbatim>\<open>exec\<close> over any child. The executor of a stream promise calls \<^verbatim>\<open>ee.on\<close> first: on
  a stream that is \<^verbatim>\<open>null\<close> it throws before anything is registered, and the promise
  is rejected with the type error. The join is then rejected before the first event.
\<close>

definition exec_start_on :: "child_process \<Rightarrow> exec_state" where
  "exec_start_on child =
     (let st1 = once Child ''exit'' ResolveExit
                  (once Child ''error'' RejectExit
                     \<lparr>listeners = [], disposables = [],
                      exit_promise = Pending, stdout_promise = Pending, stderr_promise = Pending,
                      stdout_buffers = [], stderr_buffers = [], returned = Pending\<rparr>);
          st2 = (if has_stdout child
                 then once ChildStdout ''close'' CloseStdout (on ChildStdout ''data'' PushStdout st1)
                 else st1\<lparr>stdout_promise := Rejected null_stream_error\<rparr>);
          st3 = (if has_stderr child
                 then once ChildStderr ''close'' CloseStderr (on ChildStderr ''data'' PushStderr st2)
                 else st2\<lparr>stderr_promise := Rejected null_stream_error\<rparr>)
      in st3)"

definition exec_on :: "child_process \<Rightarrow> exec_state" where
  "exec_on child = fold exec_step (emitted child) (exec_resume (exec_start_on child))"

subsection \<open>What a list of events amounts to\<close>

text \<open>
  The observations on a list of events in which the results below are stated: the first
  of the events \<^verbatim>\<open>error\<close> and \<^verbatim>\<open>exit\<close> of the process, the chunks written to each
  stream, and the text a stream has delivered when it closes for the first time.
\<close>

fun first_exit :: "child_event list \<Rightarrow> (js_error + int option) option" where
  "first_exit [] = None"
| "first_exit (ChildError e # evs) = Some (Inl e)"
| "first_exit (ChildExit c # evs) = Some (Inr c)"
| "first_exit (ev # evs) = first_exit evs"

fun stdout_chunks :: "child_event list \<Rightarrow> string list" where
  "stdout_chunks [] = []"
| "stdout_chunks (StdoutData b # evs) = b # stdout_chunks evs"
| "stdout_chunks (ev # evs) = stdout_chunks evs"

fun stderr_chunks :: "child_event list \<Rightarrow> string list" where
  "stderr_chunks [] = []"
| "stderr_chunks (StderrData b # evs) = b # stderr_chunks evs"
| "stderr_chunks (ev # evs) = stderr_chunks evs"

definition stdout_text :: "child_event list \<Rightarrow> string" where
  "stdout_text evs = concat (stdout_chunks (takeWhile (\<lambda>ev. ev \<noteq> StdoutClose) evs))"

definition stderr_text :: "child_event list \<Rightarrow> string" where
  "stderr_text evs = concat (stderr_chunks (takeWhile (\<lambda>ev. ev \<noteq> StderrClose) evs))"

text \<open>
  The three promises of the join and the returned promise, read off the events.
\<close>

definition exit_settled :: "child_event list \<Rightarrow> (js_error, int option) promise" where
  "exit_settled evs =
     (case first_exit evs of None \<Rightarrow> Pending | Some (Inl e) \<Rightarrow> Rejected e | Some (Inr c) \<Rightarrow> Resolved c)"

definition stdout_settled :: "child_event list \<Rightarrow> (js_error, string) promise" where
  "stdout_settled evs = (if StdoutClose \<in> set evs then Resolved (stdout_text evs) else Pending)"

definition stderr_settled :: "child_event list \<Rightarrow> (js_error, string) promise" where
  "stderr_settled evs = (if StderrClose \<in> set evs then Resolved (stderr_text evs) else Pending)"

definition exec_settled :: "child_event list \<Rightarrow> (js_error, IExecutionResult) promise" where
  "exec_settled evs =
     (case first_exit evs of
        None \<Rightarrow> Pending
      | Some (Inl e) \<Rightarrow> Rejected e
      | Some (Inr c) \<Rightarrow>
          if StdoutClose \<in> set evs \<and> StderrClose \<in> set evs
          then Resolved \<lparr>exitCode = c, stdout = stdout_text evs, stderr = stderr_text evs\<rparr>
          else Pending)"

text \<open>
  A listener registered by \<^verbatim>\<open>once\<close> is gone after the first event it is called for.
  The listeners left after a list of events: none once the function has returned a
  result, otherwise those whose event has not fired.
\<close>

fun fired :: "child_event \<Rightarrow> callback \<Rightarrow> bool" where
  "fired (ChildError e) h = (h = RejectExit)"
| "fired (ChildExit c) h = (h = ResolveExit)"
| "fired StdoutClose h = (h = CloseStdout)"
| "fired StderrClose h = (h = CloseStderr)"
| "fired ev h = False"

definition still_listening :: "child_event list \<Rightarrow> callback \<Rightarrow> bool" where
  "still_listening evs h = (\<not> list_ex (\<lambda>ev. fired ev h) evs)"

definition listeners_left :: "child_event list \<Rightarrow> listener list" where
  "listeners_left evs =
     (case exec_settled evs of
        Resolved r \<Rightarrow> []
      | _ \<Rightarrow> filter (\<lambda>l. still_listening evs (handler l)) (listeners exec_start))"

text \<open>
  The invariant that ties the state of \<^verbatim>\<open>exec\<close> to the events delivered so far.
\<close>

definition exec_inv :: "child_event list \<Rightarrow> exec_state \<Rightarrow> bool" where
  "exec_inv evs st =
     (listeners st = listeners_left evs
      \<and> disposables st = disposables exec_start
      \<and> exit_promise st = exit_settled evs
      \<and> stdout_promise st = stdout_settled evs
      \<and> stderr_promise st = stderr_settled evs
      \<and> (StdoutClose \<in> set evs \<or> stdout_buffers st = stdout_chunks evs)
      \<and> (StderrClose \<in> set evs \<or> stderr_buffers st = stderr_chunks evs)
      \<and> returned st = exec_settled evs)"

section \<open>\<^verbatim>\<open>Git.spawn\<close>, \<^verbatim>\<open>Git._exec\<close>, \<^verbatim>\<open>Git.exec\<close> and \<^verbatim>\<open>Repository.exec\<close>\<close>

text \<open>
  The options object with the properties the code reads. An absent property is \<open>None\<close>.
  The values of an environment are values as above: \<^verbatim>\<open>args[0]\<close> is \<^verbatim>\<open>undefined\<close> for an
  empty argument list.
\<close>

datatype stdio_config = StdioName string | StdioArray "string option list"

record spawn_options =
  cwd :: "string option"
  env :: "(string \<rightharpoonup> js_value) option"
  input :: "string option"
  log :: "bool option"
  stdio :: "stdio_config option"

record spawn_request =
  command :: string
  arguments :: "string list"
  options :: spawn_options

fun join :: "string \<Rightarrow> string list \<Rightarrow> string" where
  "join sep [] = []"
| "join sep [a] = a"
| "join sep (a # b # bs) = a @ sep @ join sep (b # bs)"

text \<open>
  The truthiness of \<^verbatim>\<open>options.stdio\<close> and of \<^verbatim>\<open>options.input\<close>.
\<close>

definition stdio_given :: "spawn_options \<Rightarrow> bool" where
  "stdio_given opts = (case stdio opts of None \<Rightarrow> False | Some (StdioName n) \<Rightarrow> n \<noteq> [] | Some (StdioArray a) \<Rightarrow> True)"

definition input_given :: "spawn_options \<Rightarrow> bool" where
  "input_given opts = (case input opts of None \<Rightarrow> False | Some s \<Rightarrow> s \<noteq> [])"

text \<open>
  \<^verbatim>\<open>Object.assign({}, process.env, options.env || {}, {VSCODE_GIT_COMMAND: args[0], LANG: 'en_US.UTF-8'})\<close>:
  a later source overwrites an earlier one, and the two fixed variables come last.
\<close>

definition fixed_env :: "string list \<Rightarrow> (string \<rightharpoonup> js_value)" where
  "fixed_env args =
     [''VSCODE_GIT_COMMAND'' \<mapsto> (case args of [] \<Rightarrow> JUndefined | a # _ \<Rightarrow> JStr a),
      ''LANG'' \<mapsto> JStr ''en_US.UTF-8'']"

definition spawn_env :: "(string \<rightharpoonup> js_value) \<Rightarrow> string list \<Rightarrow> spawn_options \<Rightarrow> (string \<rightharpoonup> js_value)" where
  "spawn_env process_env args opts =
     (Map.empty ++ process_env ++ (case env opts of None \<Rightarrow> Map.empty | Some m \<Rightarrow> m)) ++ fixed_env args"

text \<open>
  \<^verbatim>\<open>Git.spawn\<close> throws when the handle has no path; otherwise it completes the options,
  writes the command line to the output channel unless \<^verbatim>\<open>options.log\<close> is \<^verbatim>\<open>false\<close>,
  and spawns. The result is the error thrown, or the lines written to the output channel
  with the request handed to \<^verbatim>\<open>cp.spawn\<close>. The inherited environment \<^verbatim>\<open>process.env\<close> is a
  parameter.
\<close>

definition Git_spawn ::
  "string \<Rightarrow> (string \<rightharpoonup> js_value) \<Rightarrow> string list \<Rightarrow> spawn_options \<Rightarrow> js_error + string list \<times> spawn_request" where
  "Git_spawn gitPath process_env args opts =
     (if gitPath = [] then Inl (JsError ''git could not be found in the system.'')
      else
        let opts1 = (if \<not> stdio_given opts \<and> \<not> input_given opts
                     then opts\<lparr>stdio := Some (StdioArray [Some ''ignore'', None, None])\<rparr> else opts);
            opts2 = opts1\<lparr>env := Some (spawn_env process_env args opts1)\<rparr>;
            out = (if log opts2 \<noteq> Some False then [''git '' @ join '' '' args @ [CHR 0x0A]] else [])
        in Inr (out, \<lparr>command = gitPath, arguments = args, options = opts2\<rparr>))"

text \<open>
  \<^verbatim>\<open>GitError\<close> and the data it is built from. The fields \<^verbatim>\<open>stdout\<close>, \<^verbatim>\<open>stderr\<close> and
  \<^verbatim>\<open>exitCode\<close> of the error are named \<open>gitStdout\<close>, \<open>gitStderr\<close> and \<open>gitExitCode\<close>
  here, apart from those of \<^verbatim>\<open>IExecutionResult\<close>.
\<close>

record IGitErrorData =
  data_error :: "js_error option"
  data_message :: "string option"
  data_stdout :: "string option"
  data_stderr :: "string option"
  data_exitCode :: "int option"
  data_gitErrorCode :: "string option"
  data_gitCommand :: "string option"

record GitError =
  error :: "js_error option"
  message :: string
  gitStdout :: "string option"
  gitStderr :: "string option"
  gitExitCode :: "int option"
  gitErrorCode :: "string option"
  gitCommand :: "string option"

definition or_string :: "string option \<Rightarrow> string \<Rightarrow> string" where
  "or_string a b = (case a of None \<Rightarrow> b | Some s \<Rightarrow> if s = [] then b else s)"

definition new_GitError :: "IGitErrorData \<Rightarrow> GitError" where
  "new_GitError d =
     (let msg0 = (case data_error d of Some (JsError m) \<Rightarrow> Some m | None \<Rightarrow> None)
      in \<lparr>error = data_error d,
          message = or_string msg0 (or_string (data_message d) ''Git error''),
          gitStdout = data_stdout d,
          gitStderr = data_stderr d,
          gitExitCode = data_exitCode d,
          gitErrorCode = data_gitErrorCode d,
          gitCommand = data_gitCommand d\<rparr>)"

text \<open>
  A call fails with a plain error (thrown by \<^verbatim>\<open>spawn\<close>, or the error of the child that
  rejected the join) or with a \<^verbatim>\<open>GitError\<close>.
\<close>

datatype failure = Thrown js_error | Failed GitError

text \<open>
  \<^verbatim>\<open>Git._exec\<close> up to its \<^verbatim>\<open>await\<close>: the lines written to the output channel and the
  promise awaited. \<^verbatim>\<open>cp.spawn\<close> is a parameter, from the request to the child. An error
  thrown on the way (by \<^verbatim>\<open>spawn\<close>, or by \<^verbatim>\<open>child.stdin.end\<close> when there is input to
  write and \<^verbatim>\<open>child.stdin\<close> is \<^verbatim>\<open>null\<close>) is a rejection of the \<^verbatim>\<open>async\<close> function, as a
  rejection of the awaited promise is.
\<close>

definition Git_exec_awaited ::
  "(spawn_request \<Rightarrow> child_process) \<Rightarrow> string \<Rightarrow> (string \<rightharpoonup> js_value) \<Rightarrow> string list
   \<Rightarrow> spawn_options \<Rightarrow> string list \<times> (js_error, IExecutionResult) promise" where
  "Git_exec_awaited cp_spawn gitPath process_env args opts =
     (case Git_spawn gitPath process_env args opts of
        Inl e \<Rightarrow> ([], Rejected e)
      | Inr (out, req) \<Rightarrow>
          let child = cp_spawn req in
          if input_given opts \<and> \<not> has_stdin child then (out, Rejected null_stream_error)
          else (out, returned (exec_on child)))"

text \<open>
  \<^verbatim>\<open>Git._exec\<close>, here \<open>Git_exec_inner\<close>: the lines written to the output channel and
  the promise returned.
\<close>

definition Git_exec_inner ::
  "(spawn_request \<Rightarrow> child_process) \<Rightarrow> string \<Rightarrow> (string \<rightharpoonup> js_value) \<Rightarrow> string list
   \<Rightarrow> spawn_options \<Rightarrow> string list \<times> (failure, IExecutionResult) promise" where
  "Git_exec_inner cp_spawn gitPath process_env args opts =
     (case Git_exec_awaited cp_spawn gitPath process_env args opts of
        (out, Pending) \<Rightarrow> (out, Pending)
      | (out, Rejected e) \<Rightarrow> (out, Rejected (Thrown e))
      | (out, Resolved result) \<Rightarrow>
          if code_truthy (exitCode result)
          then (out @ (if log opts \<noteq> Some False then [stderr result @ [CHR 0x0A]] else []),
                Rejected (Failed (new_GitError
                  \<lparr>data_error = None,
                   data_message = Some ''Failed to execute git'',
                   data_stdout = Some (stdout result),
                   data_stderr = Some (stderr result),
                   data_exitCode = exitCode result,
                   data_gitErrorCode = gitErrorCode_of (stderr result),
                   data_gitCommand = (case args of [] \<Rightarrow> None | a # _ \<Rightarrow> Some a)\<rparr>)))
          else (out, Resolved result))"

text \<open>
  \<^verbatim>\<open>Git.exec\<close> puts the working directory under the caller's options. The handle
  \<^verbatim>\<open>Git\<close> is its path: the version is never read.
\<close>

definition Git_exec ::
  "(spawn_request \<Rightarrow> child_process) \<Rightarrow> string \<Rightarrow> (string \<rightharpoonup> js_value) \<Rightarrow> string
   \<Rightarrow> string list \<Rightarrow> spawn_options \<Rightarrow> string list \<times> (failure, IExecutionResult) promise" where
  "Git_exec cp_spawn gitPath process_env dir args opts =
     Git_exec_inner cp_spawn gitPath process_env args
       (opts\<lparr>cwd := (case cwd opts of None \<Rightarrow> Some dir | Some d \<Rightarrow> Some d)\<rparr>)"

text \<open>
  \<^verbatim>\<open>Repository.exec\<close> lays the environment of the repository over the caller's.
\<close>

record Repository =
  git :: string
  repositoryRoot :: string
  repository_env :: "string \<rightharpoonup> js_value"

definition Repository_exec ::
  "(spawn_request \<Rightarrow> child_process) \<Rightarrow> Repository \<Rightarrow> (string \<rightharpoonup> js_value) \<Rightarrow> string list
   \<Rightarrow> spawn_options \<Rightarrow> string list \<times> (failure, IExecutionResult) promise" where
  "Repository_exec cp_spawn repo process_env args opts =
     Git_exec cp_spawn (git repo) process_env (repositoryRoot repo) args
       (opts\<lparr>env := Some ((case env opts of None \<Rightarrow> Map.empty | Some m \<Rightarrow> m) ++ repository_env repo)\<rparr>)"

section \<open>\<^verbatim>\<open>findGit\<close>\<close>

text \<open>
  The host as \<^verbatim>\<open>findGit\<close> sees it: the platform, the environment, what becomes of a
  spawn of a path with \<^verbatim>\<open>--version\<close> (an \<^verbatim>\<open>error\<close> event, or an exit code with the
  output collected so far), what a shell command gives its callback (an error with its
  numeric code if it has one, or the output), what a directory holds, and \<^verbatim>\<open>path.join\<close>.
  The field \<^verbatim>\<open>path\<close> of \<^verbatim>\<open>IGit\<close> is \<open>git_path\<close> here.
\<close>

record IGit =
  git_path :: string
  version :: string

datatype spawned = SpawnFailed js_error | Exited "int option" string

datatype shell_result = ShellError "int option" | ShellOutput string

record host =
  platform :: string
  process_env :: "string \<rightharpoonup> string"
  spawn_version :: "string \<Rightarrow> spawned"
  shell :: "string \<Rightarrow> shell_result"
  readdir :: "string \<Rightarrow> js_error + string list"
  path_join :: "string list \<Rightarrow> string"

text \<open>
  Every function of the locator returns the probes it has made on the host, in order,
  with its result: the value a promise is rejected with, or the handle found.
\<close>

datatype probe = Spawn string | Shell string | Readdir string

datatype rejection = RejectedNull | RejectedText string | RejectedError js_error

type_synonym 'a attempt = "probe list \<times> (rejection + 'a)"

text \<open>
  \<^verbatim>\<open>String.prototype.trim\<close> over the white space of ASCII, and the leading label that
  \<^verbatim>\<open>parseVersion\<close> strips.
\<close>

definition is_space :: "char \<Rightarrow> bool" where
  "is_space c = (c \<in> set [CHR '' '', CHR 0x09, CHR 0x0A, CHR 0x0B, CHR 0x0C, CHR 0x0D])"

definition trim :: "string \<Rightarrow> string" where
  "trim s = rev (dropWhile is_space (rev (dropWhile is_space s)))"

definition parseVersion :: "string \<Rightarrow> string" where
  "parseVersion raw =
     (if starts_with ''git version '' raw then drop (length ''git version '') raw else raw)"

definition findSpecificGit :: "host \<Rightarrow> string \<Rightarrow> IGit attempt" where
  "findSpecificGit h p =
     ([Spawn p],
      case spawn_version h p of
        SpawnFailed e \<Rightarrow> Inl (RejectedError e)
      | Exited code out \<Rightarrow>
          if code_truthy code then Inl (RejectedError (JsError ''Not found''))
          else Inr \<lparr>git_path = p, version = parseVersion (trim out)\<rparr>)"

text \<open>
  \<^verbatim>\<open>first.then(void 0, () => second)\<close>: the second attempt is made only when the first
  one is rejected.
\<close>

definition or_else :: "'a attempt \<Rightarrow> 'a attempt \<Rightarrow> 'a attempt" where
  "or_else first second =
     (case snd first of
        Inr v \<Rightarrow> first
      | Inl e \<Rightarrow> (fst first @ fst second, snd second))"

definition getVersion :: "host \<Rightarrow> string \<Rightarrow> IGit attempt" where
  "getVersion h p =
     ([Shell ''git --version''],
      case shell h ''git --version'' of
        ShellError c \<Rightarrow> Inl (RejectedText ''git not found'')
      | ShellOutput out \<Rightarrow> Inr \<lparr>git_path = p, version = parseVersion (trim out)\<rparr>)"

definition findGitDarwin :: "host \<Rightarrow> IGit attempt" where
  "findGitDarwin h =
     (case shell h ''which git'' of
        ShellError c \<Rightarrow> ([Shell ''which git''], Inl (RejectedText ''git not found''))
      | ShellOutput out \<Rightarrow>
          let p = trim out in
          if p \<noteq> ''/usr/bin/git''
          then (Shell ''which git'' # fst (getVersion h p), snd (getVersion h p))
          else if shell h ''xcode-select -p'' = ShellError (Some 2)
               then ([Shell ''which git'', Shell ''xcode-select -p''], Inl (RejectedText ''git not found''))
               else (Shell ''which git'' # Shell ''xcode-select -p'' # fst (getVersion h p),
                     snd (getVersion h p)))"

definition findSystemGitWin32 :: "host \<Rightarrow> string option \<Rightarrow> IGit attempt" where
  "findSystemGitWin32 h base =
     (case base of
        None \<Rightarrow> ([], Inl (RejectedText ''Not found''))
      | Some b \<Rightarrow>
          if b = [] then ([], Inl (RejectedText ''Not found''))
          else findSpecificGit h (path_join h [b, ''Git'', ''cmd'', ''git.exe'']))"

text \<open>
  \<^verbatim>\<open>path.join\<close> throws a type error on an absent \<^verbatim>\<open>LOCALAPPDATA\<close>; inside the handler
  of \<^verbatim>\<open>then\<close> that is a rejection.
\<close>

definition findGitHubGitWin32 :: "host \<Rightarrow> IGit attempt" where
  "findGitHubGitWin32 h =
     (case process_env h ''LOCALAPPDATA'' of
        None \<Rightarrow> ([], Inl (RejectedError (JsError ''Path must be a string'')))
      | Some appdata \<Rightarrow>
          let github = path_join h [appdata, ''GitHub''] in
          (case readdir h github of
             Inl e \<Rightarrow> ([Readdir github], Inl (RejectedError e))
           | Inr children \<Rightarrow>
               (case filter (starts_with ''PortableGit'') children of
                  [] \<Rightarrow> ([Readdir github], Inl (RejectedText ''Not found''))
                | g # _ \<Rightarrow>
                    (Readdir github # fst (findSpecificGit h (path_join h [github, g, ''cmd'', ''git.exe''])),
                     snd (findSpecificGit h (path_join h [github, g, ''cmd'', ''git.exe'']))))))"

definition findGitWin32 :: "host \<Rightarrow> IGit attempt" where
  "findGitWin32 h =
     or_else (or_else (or_else (or_else
       (findSystemGitWin32 h (process_env h ''ProgramW6432''))
       (findSystemGitWin32 h (process_env h ''ProgramFiles(x86)'')))
       (findSystemGitWin32 h (process_env h ''ProgramFiles'')))
       (findSpecificGit h ''git''))
       (findGitHubGitWin32 h)"

text \<open>
  The \<^verbatim>\<open>switch\<close> on the platform, and \<^verbatim>\<open>findGit\<close> itself.
\<close>

definition platform_search :: "host \<Rightarrow> IGit attempt" where
  "platform_search h =
     (if platform h = ''darwin'' then findGitDarwin h
      else if platform h = ''win32'' then findGitWin32 h
      else findSpecificGit h ''git'')"

definition findGit :: "host \<Rightarrow> string option \<Rightarrow> IGit attempt" where
  "findGit h hint =
     or_else (case hint of
                None \<Rightarrow> ([], Inl RejectedNull)
              | Some p \<Rightarrow> if p = [] then ([], Inl RejectedNull) else findSpecificGit h p)
             (platform_search h)"

text \<open>
  A host on which only the bare name \<^verbatim>\<open>git\<close> can be spawned, for the examples below.
\<close>

definition example_host :: host where
  "example_host =
     \<lparr>platform = ''linux'', process_env = Map.empty,
      spawn_version = (\<lambda>p. if p = ''git'' then Exited (Some 0) (''git version 2.9.0'' @ [CHR 0x0A])
                            else SpawnFailed (JsError ''spawn ENOENT'')),
      shell = (\<lambda>c. ShellError None),
      readdir = (\<lambda>d. Inl (JsError ''ENOENT'')),
      path_join = concat\<rparr>"

section \<open>Properties of the status parser\<close>

subsection \<open>Reading one field\<close>

lemma charAt_append_at: "charAt (pre @ c # rest) (length pre) = [c]"
  by (simp add: charAt_def)

lemma charAt_append_in: "k < length f \<Longrightarrow> charAt (pre @ f @ rest) (length pre + k) = [f ! k]"
  by (simp add: charAt_def nth_append)

lemma substring_field: "substring (pre @ f @ rest) (length pre) (length pre + length f) = f"
  by (simp add: substring_def Let_def min_def max_def)

lemma readName_field_from:
  assumes "NUL \<notin> set f" and "k \<le> length f"
  shows "readName (pre @ f @ NUL # rest) (length pre) (length pre + k)
         = Some (f, length pre + length f + 1)"
  using assms(2)
proof (induction "length f - k" arbitrary: k)
  case 0
  then have k: "k = length f" by simp
  have "charAt (pre @ f @ NUL # rest) (length pre + k) = [NUL]"
    using charAt_append_at [of "pre @ f" NUL rest] by (simp add: k)
  moreover have "substring (pre @ f @ NUL # rest) (length pre) (length pre + k) = f"
    using substring_field [of pre f "NUL # rest"] by (simp add: k)
  ultimately show ?case
    by (subst readName.simps) (simp add: k)
next
  case (Suc n)
  then have lt: "k < length f" by simp
  then have "f ! k \<in> set f" by simp
  with assms(1) have "f ! k \<noteq> NUL" by metis
  moreover have "charAt (pre @ f @ NUL # rest) (length pre + k) = [f ! k]"
    using lt by (rule charAt_append_in)
  ultimately have ne: "charAt (pre @ f @ NUL # rest) (length pre + k) \<noteq> [NUL]" by simp
  have "readName (pre @ f @ NUL # rest) (length pre) (length pre + Suc k)
        = Some (f, length pre + length f + 1)"
    using Suc lt by (intro Suc.hyps(1)) simp_all
  then show ?case
    using ne by (subst readName.simps) simp
qed

lemma readName_field:
  "NUL \<notin> set f \<Longrightarrow>
   readName (pre @ f @ NUL # rest) (length pre) (length pre) = Some (f, length pre + length f + 1)"
  using readName_field_from [of f 0 pre rest] by simp

text \<open>A scan that returns has met a NUL at or after its cursor.\<close>

lemma readName_Some_NUL:
  assumes "readName s start i = Some r"
  shows "\<exists>j\<ge>i. charAt s j = [NUL]"
  using assms
proof (rule readName.raw_induct [rotated 1, where P = "\<lambda>s start i r. \<exists>j\<ge>i. charAt s j = [NUL]"])
  fix f :: "string \<Rightarrow> nat \<Rightarrow> nat \<Rightarrow> (string \<times> nat) option"
  fix status start i r
  assume IH: "\<And>s a k r'. f s a k = Some r' \<Longrightarrow> \<exists>j\<ge>k. charAt s j = [NUL]"
  assume eq: "(if charAt status i \<noteq> [NUL] then f status start (i + 1)
               else Some (substring status start i, i + 1)) = Some r"
  show "\<exists>j\<ge>i. charAt status j = [NUL]"
  proof (cases "charAt status i \<noteq> [NUL]")
    case True
    with eq have "f status start (i + 1) = Some r" by simp
    from IH [OF this] obtain j where "j \<ge> i + 1" "charAt status j = [NUL]" by blast
    then show ?thesis by (intro exI [of _ j]) simp
  next
    case False
    then show ?thesis by blast
  qed
qed

lemma readName_diverges:
  "\<forall>j\<ge>i. charAt s j \<noteq> [NUL] \<Longrightarrow> readName s start i = None"
  using readName_Some_NUL [of s start i] by (cases "readName s start i") auto

subsection \<open>One pass of the loop body over one record\<close>

lemma ends_with_slash_last: "ends_with_slash p = (p \<noteq> [] \<and> last p = CHR ''/'')"
  by (auto simp: ends_with_slash_def last_conv_nth)

lemma getStatus_body_no_rename:
  assumes "charAt s i \<noteq> ''R''" and "readName s (i + 3) (i + 3) = Some (p, j)"
  shows "getStatus_body s i acc
         = Some (j, if ends_with_slash p then acc
                    else acc @ [\<lparr>x = charAt s i, y = charAt s (i + 1), path = p, rename = None\<rparr>])"
  using assms by (simp add: getStatus_body_def Let_def)

lemma getStatus_body_with_rename:
  assumes "charAt s i = ''R''" and "readName s (i + 3) (i + 3) = Some (src, k)"
    and "readName s k k = Some (p, j)"
  shows "getStatus_body s i acc
         = Some (j, if ends_with_slash p then acc
                    else acc @ [\<lparr>x = ''R'', y = charAt s (i + 1), path = p, rename = Some src\<rparr>])"
  using assms by (simp add: getStatus_body_def Let_def)

lemma getStatus_body_plain:
  assumes "cx \<noteq> CHR ''R''" and "NUL \<notin> set p"
  shows "getStatus_body (pre @ [cx, cy, sep] @ p @ NUL # rest) (length pre) acc
         = Some (length pre + 3 + (length p + 1),
                 if ends_with_slash p then acc
                 else acc @ [\<lparr>x = [cx], y = [cy], path = p, rename = None\<rparr>])"
proof -
  let ?t = "pre @ [cx, cy, sep] @ p @ NUL # rest"
  have cx: "charAt ?t (length pre) = [cx]"
    by (simp add: charAt_def)
  then have nr: "charAt ?t (length pre) \<noteq> ''R''"
    using assms(1) by simp
  have cy: "charAt ?t (length pre + 1) = [cy]"
    by (simp add: charAt_def nth_append)
  have "readName ((pre @ [cx, cy, sep]) @ p @ NUL # rest)
          (length (pre @ [cx, cy, sep])) (length (pre @ [cx, cy, sep]))
        = Some (p, length (pre @ [cx, cy, sep]) + length p + 1)"
    using assms(2) by (rule readName_field)
  then have rd: "readName ?t (length pre + 3) (length pre + 3)
                 = Some (p, length pre + 3 + (length p + 1))"
    by (simp add: eval_nat_numeral)
  show ?thesis
    unfolding getStatus_body_no_rename [OF nr rd] cx cy by (rule refl)
qed

lemma getStatus_body_rename:
  assumes "NUL \<notin> set src" and "NUL \<notin> set p"
  shows "getStatus_body (pre @ [CHR ''R'', cy, sep] @ src @ NUL # p @ NUL # rest) (length pre) acc
         = Some (length pre + 3 + (length src + 1) + (length p + 1),
                 if ends_with_slash p then acc
                 else acc @ [\<lparr>x = ''R'', y = [cy], path = p, rename = Some src\<rparr>])"
proof -
  let ?h = "pre @ [CHR ''R'', cy, sep]"
  let ?t = "pre @ [CHR ''R'', cy, sep] @ src @ NUL # p @ NUL # rest"
  have cx: "charAt ?t (length pre) = ''R''"
    by (simp add: charAt_def)
  have cy: "charAt ?t (length pre + 1) = [cy]"
    by (simp add: charAt_def nth_append)
  have "readName (?h @ src @ NUL # (p @ NUL # rest)) (length ?h) (length ?h)
        = Some (src, length ?h + length src + 1)"
    using assms(1) by (rule readName_field)
  then have rd1: "readName ?t (length pre + 3) (length pre + 3)
                  = Some (src, length pre + 3 + (length src + 1))"
    by (simp add: eval_nat_numeral)
  have "readName ((?h @ src @ [NUL]) @ p @ NUL # rest)
          (length (?h @ src @ [NUL])) (length (?h @ src @ [NUL]))
        = Some (p, length (?h @ src @ [NUL]) + length p + 1)"
    using assms(2) by (rule readName_field)
  then have rd2: "readName ?t (length pre + 3 + (length src + 1)) (length pre + 3 + (length src + 1))
                  = Some (p, length pre + 3 + (length src + 1) + (length p + 1))"
    by (simp add: eval_nat_numeral)
  show ?thesis
    unfolding getStatus_body_with_rename [OF cx rd1 rd2] cy by (rule refl)
qed

lemma getStatus_body_record:
  assumes "wf_record r"
  shows "getStatus_body (pre @ encode_record r @ rest) (length pre) acc
         = Some (length pre + length (encode_record r),
                 if is_directory_marker r then acc else acc @ [entry_of r])"
proof (cases "rec_rename r")
  case None
  with assms have "rec_x r \<noteq> CHR ''R''" and "NUL \<notin> set (rec_path r)"
    by (simp_all add: wf_record_def)
  from getStatus_body_plain [OF this, of pre "rec_y r" "rec_sep r" rest acc]
  show ?thesis
    by (simp add: encode_record_def None entry_of_def is_directory_marker_def ends_with_slash_last)
next
  case (Some src)
  with assms have rx: "rec_x r = CHR ''R''" and "NUL \<notin> set src" and "NUL \<notin> set (rec_path r)"
    by (simp_all add: wf_record_def)
  from getStatus_body_rename [OF this(2,3), of pre "rec_y r" "rec_sep r" rest acc]
  show ?thesis
    by (simp add: encode_record_def Some rx entry_of_def is_directory_marker_def ends_with_slash_last)
qed

subsection \<open>The loop over a well-formed text\<close>

lemma getStatus_loop_records:
  assumes "\<forall>r\<in>set recs. wf_record r"
  shows "getStatus_loop (pre @ encode_status recs) (length pre) acc
         = Some (acc @ map entry_of (filter (\<lambda>r. \<not> is_directory_marker r) recs))"
  using assms
proof (induction recs arbitrary: pre acc)
  case Nil
  show ?case
    by (subst getStatus_loop.simps) (simp add: encode_status_def)
next
  case (Cons r recs)
  let ?e = "encode_record r"
  let ?acc = "if is_directory_marker r then acc else acc @ [entry_of r]"
  have wf: "wf_record r" and wfs: "\<forall>r\<in>set recs. wf_record r"
    using Cons.prems by simp_all
  have len: "0 < length ?e"
    by (simp add: encode_record_def)
  have unfold_text: "pre @ encode_status (r # recs) = pre @ ?e @ encode_status recs"
    by (simp add: encode_status_def)
  have body: "getStatus_body (pre @ ?e @ encode_status recs) (length pre) acc
              = Some (length pre + length ?e, ?acc)"
    using wf by (rule getStatus_body_record)
  have "getStatus_loop (pre @ ?e @ encode_status recs) (length pre) acc
        = getStatus_loop (pre @ ?e @ encode_status recs) (length pre + length ?e) ?acc"
    using len by (subst getStatus_loop.simps) (simp add: body)
  also have "\<dots> = getStatus_loop ((pre @ ?e) @ encode_status recs) (length (pre @ ?e)) ?acc"
    by simp
  also have "\<dots> = Some (?acc @ map entry_of (filter (\<lambda>r. \<not> is_directory_marker r) recs))"
    using wfs by (rule Cons.IH)
  finally show ?case
    by (simp add: unfold_text)
qed

text \<open>A scan over a rest of the text that holds no NUL never returns.\<close>

lemma readName_no_NUL:
  assumes "NUL \<notin> set (drop i s)"
  shows "readName s start i = None"
proof (rule readName_diverges, intro allI impI)
  fix j assume "i \<le> j"
  show "charAt s j \<noteq> [NUL]"
  proof (cases "j < length s")
    case True
    with \<open>i \<le> j\<close> have "s ! j \<in> set (drop i s)"
      by (auto simp: in_set_conv_nth intro!: exI [of _ "j - i"])
    with assms have "s ! j \<noteq> NUL" by metis
    with True show ?thesis by (simp add: charAt_def)
  next
    case False
    then show ?thesis by (simp add: charAt_def)
  qed
qed

lemma status_text_as_records:
  "status_text_of sep ts
   = encode_status (map (\<lambda>(cx, cy, p). \<lparr>rec_x = cx, rec_y = cy, rec_sep = sep, rec_rename = None, rec_path = p\<rparr>) ts)"
  by (induction ts) (auto simp: status_text_of_def encode_status_def triple_text_def encode_record_def)

subsection \<open>Claims about the status parser\<close>

text \<open>
  Claim C4. For every well-formed NUL-delimited status text, that is the encoding of a
  list of well-formed records, \<^verbatim>\<open>getStatus\<close> returns, and it returns exactly one entry
  per record whose path does not end in a path separator, in the order of the records;
  a record whose path ends in a path separator gives no entry, so the number of entries
  is the number of records minus the number of directory-marker records.
\<close>

theorem getStatus_one_entry_per_record:
  assumes "\<forall>r\<in>set recs. wf_record r"
  shows "getStatus_parse (encode_status recs)
           = Some (map entry_of (filter (\<lambda>r. \<not> is_directory_marker r) recs))
         \<and> length (map entry_of (filter (\<lambda>r. \<not> is_directory_marker r) recs))
           = length recs - length (filter is_directory_marker recs)"
proof
  show "getStatus_parse (encode_status recs)
        = Some (map entry_of (filter (\<lambda>r. \<not> is_directory_marker r) recs))"
    using getStatus_loop_records [OF assms, of "[]" "[]"]
    by (simp add: getStatus_parse_def)
  have "length (filter (\<lambda>r. \<not> is_directory_marker r) recs) + length (filter is_directory_marker recs)
        = length recs"
    using sum_length_filter_compl [of is_directory_marker recs] by simp
  then show "length (map entry_of (filter (\<lambda>r. \<not> is_directory_marker r) recs))
             = length recs - length (filter is_directory_marker recs)"
    by simp
qed

text \<open>The theorem at three records: a plain one, a directory marker and a rename.\<close>

theorem getStatus_one_entry_per_record_witness:
  "getStatus_parse
     (encode_status
        [\<lparr>rec_x = CHR ''?'', rec_y = CHR ''?'', rec_sep = CHR '' '', rec_rename = None, rec_path = ''a.txt''\<rparr>,
         \<lparr>rec_x = CHR ''?'', rec_y = CHR ''?'', rec_sep = CHR '' '', rec_rename = None, rec_path = ''sub/''\<rparr>,
         \<lparr>rec_x = CHR ''R'', rec_y = CHR '' '', rec_sep = CHR '' '', rec_rename = Some ''old'', rec_path = ''new''\<rparr>])
   = Some [\<lparr>x = ''?'', y = ''?'', path = ''a.txt'', rename = None\<rparr>,
           \<lparr>x = ''R'', y = '' '', path = ''new'', rename = Some ''old''\<rparr>]"
  using getStatus_one_entry_per_record
    [of "[\<lparr>rec_x = CHR ''?'', rec_y = CHR ''?'', rec_sep = CHR '' '', rec_rename = None, rec_path = ''a.txt''\<rparr>,
         \<lparr>rec_x = CHR ''?'', rec_y = CHR ''?'', rec_sep = CHR '' '', rec_rename = None, rec_path = ''sub/''\<rparr>,
         \<lparr>rec_x = CHR ''R'', rec_y = CHR '' '', rec_sep = CHR '' '', rec_rename = Some ''old'', rec_path = ''new''\<rparr>]"]
  by (simp add: wf_record_def NUL_def is_directory_marker_def entry_of_def)

text \<open>
  Claim C5 (round trip). For every list of (statusX, statusY, path) triples with no rename
  marker as index status, no directory-marker path and no NUL inside a path (a path on
  the wire ends at its first NUL), parsing the synthetic text built from the list (per
  triple the two status characters, one separator character, the path and a NUL) gives
  back exactly the entries of that list, in the same order.
\<close>

theorem getStatus_round_trip:
  assumes "\<forall>t\<in>set ts. plain_triple t"
  shows "getStatus_parse (status_text_of sep ts) = Some (map triple_entry ts)"
proof -
  let ?rec = "\<lambda>(cx, cy, p). \<lparr>rec_x = cx, rec_y = cy, rec_sep = sep, rec_rename = None, rec_path = p\<rparr>"
  have wf: "\<forall>r\<in>set (map ?rec ts). wf_record r"
    using assms by (auto simp: plain_triple_def wf_record_def)
  have keep: "filter (\<lambda>r. \<not> is_directory_marker r) (map ?rec ts) = map ?rec ts"
    using assms by (auto simp: plain_triple_def is_directory_marker_def filter_id_conv)
  have same: "map entry_of (map ?rec ts) = map triple_entry ts"
    by (auto simp: entry_of_def triple_entry_def)
  have "getStatus_loop ([] @ encode_status (map ?rec ts)) (length ([] :: string)) []
        = Some ([] @ map entry_of (filter (\<lambda>r. \<not> is_directory_marker r) (map ?rec ts)))"
    using wf by (rule getStatus_loop_records)
  then have "getStatus_loop (encode_status (map ?rec ts)) 0 [] = Some (map triple_entry ts)"
    unfolding keep same by simp
  then show ?thesis
    by (simp only: getStatus_parse_def status_text_as_records)
qed

text \<open>The theorem at three triples, one of them with an empty path.\<close>

theorem getStatus_round_trip_witness:
  "getStatus_parse (status_text_of (CHR '' '') [(CHR ''M'', CHR '' '', ''src/a.ts''), (CHR ''?'', CHR ''?'', ''''), (CHR ''A'', CHR ''D'', ''b'')])
   = Some [\<lparr>x = ''M'', y = '' '', path = ''src/a.ts'', rename = None\<rparr>,
           \<lparr>x = ''?'', y = ''?'', path = '''', rename = None\<rparr>,
           \<lparr>x = ''A'', y = ''D'', path = ''b'', rename = None\<rparr>]"
  using getStatus_round_trip
    [of "[(CHR ''M'', CHR '' '', ''src/a.ts''), (CHR ''?'', CHR ''?'', ''''), (CHR ''A'', CHR ''D'', ''b'')]" "CHR '' ''"]
  by (simp add: plain_triple_def NUL_def triple_entry_def)

text \<open>
  Claim C6 as stated speaks of every record with index status \<open>R\<close>. The check for a
  directory marker runs for every record, renames included: a rename whose primary path
  ends in \<open>/\<close> gives no entry at all.
\<close>

theorem rename_record_directory_counterexample:
  "getStatus_parse (''R  old'' @ [NUL] @ ''new/'' @ [NUL]) = Some []"
  by code_simp

text \<open>
  Claim C6, amended. For every record with index status \<open>R\<close>, a NUL-terminated rename
  source and a NUL-terminated primary path that does not end in \<open>/\<close>, one pass of the
  loop body started at the record appends exactly one entry, whose \<^verbatim>\<open>rename\<close> is the
  rename source and whose \<^verbatim>\<open>path\<close> is the primary path, and moves the cursor past
  exactly the three characters of the status prefix and the two NUL-terminated fields,
  whatever stands before and after the record; the text of that record alone parses to
  that single entry.
\<close>

theorem getStatus_rename_record:
  assumes "NUL \<notin> set src" and "NUL \<notin> set p" and "\<not> (p \<noteq> [] \<and> last p = CHR ''/'')"
  shows "getStatus_body (pre @ [CHR ''R'', cy, sep] @ src @ NUL # p @ NUL # rest) (length pre) acc
           = Some (length pre + 3 + (length src + 1) + (length p + 1),
                   acc @ [\<lparr>x = ''R'', y = [cy], path = p, rename = Some src\<rparr>])
         \<and> getStatus_parse ([CHR ''R'', cy, sep] @ src @ NUL # p @ [NUL])
           = Some [\<lparr>x = ''R'', y = [cy], path = p, rename = Some src\<rparr>]"
proof
  show "getStatus_body (pre @ [CHR ''R'', cy, sep] @ src @ NUL # p @ NUL # rest) (length pre) acc
        = Some (length pre + 3 + (length src + 1) + (length p + 1),
                acc @ [\<lparr>x = ''R'', y = [cy], path = p, rename = Some src\<rparr>])"
    using getStatus_body_rename [OF assms(1,2), of pre cy sep rest acc] assms(3)
    by (simp add: ends_with_slash_last)
next
  let ?t = "[CHR ''R'', cy, sep] @ src @ NUL # p @ [NUL]"
  let ?e = "\<lparr>x = ''R'', y = [cy], path = p, rename = Some src\<rparr>"
  have len: "length ?t = 3 + (length src + 1) + (length p + 1)"
    by simp
  have "getStatus_body ([] @ [CHR ''R'', cy, sep] @ src @ NUL # p @ NUL # []) (length ([] :: string)) []
        = Some (length ([] :: string) + 3 + (length src + 1) + (length p + 1),
                if ends_with_slash p then [] else [] @ [?e])"
    using assms(1,2) by (rule getStatus_body_rename)
  then have body: "getStatus_body ?t 0 [] = Some (length ?t, [?e])"
    using assms(3) by (simp add: ends_with_slash_last)
  have stop: "getStatus_loop ?t (length ?t) [?e] = Some [?e]"
    by (subst getStatus_loop.simps) simp
  have "getStatus_loop ?t 0 [] = getStatus_loop ?t (length ?t) [?e]"
    by (subst getStatus_loop.simps) (simp add: body del: append.simps)
  then show "getStatus_parse ?t = Some [?e]"
    using stop by (simp add: getStatus_parse_def)
qed

text \<open>The theorem at a rename record standing between two other records.\<close>

theorem getStatus_rename_record_witness:
  "getStatus_body (''?? a'' @ [NUL] @ [CHR ''R'', CHR '' '', CHR '' ''] @ ''old'' @ NUL # ''new'' @ NUL # ''?? b'' @ [NUL]) 5 []
     = Some (16, [\<lparr>x = ''R'', y = '' '', path = ''new'', rename = Some ''old''\<rparr>])
   \<and> getStatus_parse ([CHR ''R'', CHR '' '', CHR '' ''] @ ''old'' @ NUL # ''new'' @ [NUL])
     = Some [\<lparr>x = ''R'', y = '' '', path = ''new'', rename = Some ''old''\<rparr>]"
  using getStatus_rename_record [of "''old''" "''new''" "''?? a'' @ [NUL]" "CHR '' ''" "CHR '' ''" "''?? b'' @ [NUL]" "[]"]
  by (simp add: NUL_def eval_nat_numeral)

text \<open>
  Claim C8 says that the parse terminates on every input text, with no trailing
  delimiter assumed. The outer loop stops at the end of the text, but \<^verbatim>\<open>readName\<close>
  does not: on a text whose last path is not closed by a NUL the scan runs past the end
  for ever, and the parse never returns.
\<close>

theorem getStatus_unterminated_diverges:
  "getStatus_parse ''?? a.txt'' = None"
proof -
  have "readName ''?? a.txt'' 3 3 = None"
    by (rule readName_no_NUL) (simp add: NUL_def)
  then have "getStatus_body ''?? a.txt'' 0 [] = None"
    by (simp add: getStatus_body_def charAt_def)
  then show ?thesis
    unfolding getStatus_parse_def by (subst getStatus_loop.simps) simp
qed

section \<open>Properties of the process runner\<close>

subsection \<open>Occurrence of a text\<close>

lemma starts_with_iff: "starts_with p s \<longleftrightarrow> (\<exists>b. s = p @ b)"
  by (induction p s rule: starts_with.induct) auto

lemma regex_test_iff: "regex_test p s \<longleftrightarrow> (\<exists>a b. s = a @ p @ b)"
proof (induction s)
  case Nil
  then show ?case by auto
next
  case (Cons c cs)
  show ?case
  proof
    assume "regex_test p (c # cs)"
    then consider "starts_with p (c # cs)" | "regex_test p cs" by auto
    then show "\<exists>a b. c # cs = a @ p @ b"
    proof cases
      case 1
      then obtain b where "c # cs = p @ b" by (auto simp: starts_with_iff)
      then have "c # cs = [] @ p @ b" by simp
      then show ?thesis by blast
    next
      case 2
      with Cons obtain a b where "cs = a @ p @ b" by auto
      then have "c # cs = (c # a) @ p @ b" by simp
      then show ?thesis by blast
    qed
  next
    assume "\<exists>a b. c # cs = a @ p @ b"
    then obtain a b where ab: "c # cs = a @ p @ b" by auto
    show "regex_test p (c # cs)"
    proof (cases a)
      case Nil
      with ab have "starts_with p (c # cs)" by (auto simp: starts_with_iff)
      then show ?thesis by simp
    next
      case (Cons a' as)
      with ab have "cs = as @ p @ b" by simp
      with Cons.IH have "regex_test p cs" by blast
      then show ?thesis by simp
    qed
  qed
qed

subsection \<open>Observations on a longer list of events\<close>

lemma first_exit_snoc:
  "first_exit (evs @ [ev]) = (case first_exit evs of Some r \<Rightarrow> Some r | None \<Rightarrow> first_exit [ev])"
  by (induction evs rule: first_exit.induct) simp_all

lemma first_exit_None:
  "first_exit evs = None \<longleftrightarrow> still_listening evs RejectExit \<and> still_listening evs ResolveExit"
  by (induction evs rule: first_exit.induct) (simp_all add: still_listening_def)

lemma first_exit_error: "first_exit evs = Some (Inl e) \<Longrightarrow> \<not> still_listening evs RejectExit"
  by (induction evs rule: first_exit.induct) (simp_all add: still_listening_def)

lemma first_exit_code: "first_exit evs = Some (Inr c) \<Longrightarrow> \<not> still_listening evs ResolveExit"
  by (induction evs rule: first_exit.induct) (simp_all add: still_listening_def)

lemma still_listening_snoc:
  "still_listening (evs @ [ev]) h = (still_listening evs h \<and> \<not> fired ev h)"
  by (simp add: still_listening_def)

lemma still_listening_close_out: "still_listening evs CloseStdout = (StdoutClose \<notin> set evs)"
proof -
  have "fired ev CloseStdout = (ev = StdoutClose)" for ev by (cases ev) simp_all
  then show ?thesis by (simp add: still_listening_def list_ex_iff)
qed

lemma still_listening_close_err: "still_listening evs CloseStderr = (StderrClose \<notin> set evs)"
proof -
  have "fired ev CloseStderr = (ev = StderrClose)" for ev by (cases ev) simp_all
  then show ?thesis by (simp add: still_listening_def list_ex_iff)
qed

lemma still_listening_data:
  "still_listening evs PushStdout" "still_listening evs PushStderr"
proof -
  have "\<not> fired ev PushStdout" "\<not> fired ev PushStderr" for ev by (cases ev; simp)+
  then show "still_listening evs PushStdout" "still_listening evs PushStderr"
    by (simp_all add: still_listening_def list_ex_iff)
qed

lemma stdout_chunks_append: "stdout_chunks (evs @ evs') = stdout_chunks evs @ stdout_chunks evs'"
  by (induction evs rule: stdout_chunks.induct) simp_all

lemma stderr_chunks_append: "stderr_chunks (evs @ evs') = stderr_chunks evs @ stderr_chunks evs'"
  by (induction evs rule: stderr_chunks.induct) simp_all

lemma stdout_text_closed: "StdoutClose \<in> set evs \<Longrightarrow> stdout_text (evs @ evs') = stdout_text evs"
  by (auto simp: stdout_text_def takeWhile_append1)

lemma stderr_text_closed: "StderrClose \<in> set evs \<Longrightarrow> stderr_text (evs @ evs') = stderr_text evs"
  by (auto simp: stderr_text_def takeWhile_append1)

lemma takeWhile_until_first: "c \<notin> set evs \<Longrightarrow> takeWhile (\<lambda>ev. ev \<noteq> c) (evs @ c # evs') = evs"
  by (induction evs) auto

lemma stdout_text_close: "StdoutClose \<notin> set evs \<Longrightarrow> stdout_text (evs @ [StdoutClose]) = concat (stdout_chunks evs)"
  by (simp add: stdout_text_def takeWhile_until_first)

lemma stderr_text_close: "StderrClose \<notin> set evs \<Longrightarrow> stderr_text (evs @ [StderrClose]) = concat (stderr_chunks evs)"
  by (simp add: stderr_text_def takeWhile_until_first)

subsection \<open>Disposing\<close>

lemma exec_start_listeners:
  "listeners exec_start =
     [\<lparr>target = Child, event_name = ''error'', handler = RejectExit, is_once = True\<rparr>,
      \<lparr>target = Child, event_name = ''exit'', handler = ResolveExit, is_once = True\<rparr>,
      \<lparr>target = ChildStdout, event_name = ''data'', handler = PushStdout, is_once = False\<rparr>,
      \<lparr>target = ChildStdout, event_name = ''close'', handler = CloseStdout, is_once = True\<rparr>,
      \<lparr>target = ChildStderr, event_name = ''data'', handler = PushStderr, is_once = False\<rparr>,
      \<lparr>target = ChildStderr, event_name = ''close'', handler = CloseStderr, is_once = True\<rparr>]"
  by (simp add: exec_start_def once_def on_def)

lemma exec_start_disposables:
  "disposables exec_start =
     [(Child, ''error'', RejectExit), (Child, ''exit'', ResolveExit),
      (ChildStdout, ''data'', PushStdout), (ChildStdout, ''close'', CloseStdout),
      (ChildStderr, ''data'', PushStderr), (ChildStderr, ''close'', CloseStderr)]"
  by (simp add: exec_start_def once_def on_def)

text \<open>
  Among listeners with distinct closures \<^verbatim>\<open>removeListener\<close> removes every registration
  of its closure, and disposing removes whatever is left of the six listeners.
\<close>

lemma removeListener_filter:
  assumes "distinct (map handler ls)"
  shows "removeListener ee n f ls = filter (\<lambda>l. \<not> listens ee n f l) ls"
  using assms
proof (induction ls)
  case Nil
  show ?case by simp
next
  case (Cons l ls)
  then have IH: "removeListener ee n f ls = filter (\<lambda>l. \<not> listens ee n f l) ls"
    and fresh: "handler l \<notin> handler ` set ls"
    by simp_all
  show ?case
  proof (cases "list_ex (listens ee n f) ls")
    case True
    then obtain l' where "l' \<in> set ls" "handler l' = f"
      by (auto simp: list_ex_iff listens_def)
    with fresh have "\<not> listens ee n f l"
      by (auto simp: listens_def)
    with True IH show ?thesis by simp
  next
    case False
    then have "filter (\<lambda>l. \<not> listens ee n f l) ls = ls"
      by (auto simp: list_ex_iff filter_id_conv)
    with False show ?thesis by simp
  qed
qed

lemma dispose_filter:
  "distinct (map handler ls) \<Longrightarrow>
   dispose ds ls = filter (\<lambda>l. \<forall>(ee, n, f)\<in>set ds. \<not> listens ee n f l) ls"
proof (induction ds arbitrary: ls)
  case Nil
  show ?case by (simp add: dispose_def)
next
  case (Cons d ds)
  obtain ee n f where d: "d = (ee, n, f)" by (cases d)
  have "distinct (map handler (filter (\<lambda>l. \<not> listens ee n f l) ls))"
    using Cons.prems by (rule distinct_map_filter)
  from Cons.IH [OF this] removeListener_filter [OF Cons.prems, of ee n f]
  show ?case
    by (auto simp: dispose_def d intro: filter_cong)
qed

lemma dispose_all:
  "dispose (disposables exec_start) (filter P (listeners exec_start)) = []"
proof -
  have "distinct (map handler (filter P (listeners exec_start)))"
    by (rule distinct_map_filter) (simp add: exec_start_listeners)
  then show ?thesis
    by (simp add: dispose_filter exec_start_disposables)
       (auto simp: exec_start_listeners listens_def)
qed

subsection \<open>One event\<close>

lemma called_listeners:
  "filter (receives ev) (filter (\<lambda>l. A (handler l)) (listeners exec_start)) =
     (case ev of
        ChildError e \<Rightarrow> if A RejectExit then [\<lparr>target = Child, event_name = ''error'', handler = RejectExit, is_once = True\<rparr>] else []
      | ChildExit c \<Rightarrow> if A ResolveExit then [\<lparr>target = Child, event_name = ''exit'', handler = ResolveExit, is_once = True\<rparr>] else []
      | StdoutData b \<Rightarrow> if A PushStdout then [\<lparr>target = ChildStdout, event_name = ''data'', handler = PushStdout, is_once = False\<rparr>] else []
      | StdoutClose \<Rightarrow> if A CloseStdout then [\<lparr>target = ChildStdout, event_name = ''close'', handler = CloseStdout, is_once = True\<rparr>] else []
      | StderrData b \<Rightarrow> if A PushStderr then [\<lparr>target = ChildStderr, event_name = ''data'', handler = PushStderr, is_once = False\<rparr>] else []
      | StderrClose \<Rightarrow> if A CloseStderr then [\<lparr>target = ChildStderr, event_name = ''close'', handler = CloseStderr, is_once = True\<rparr>] else [])"
  by (cases ev) (simp_all add: exec_start_listeners receives_def)

lemma kept_listeners:
  "filter (\<lambda>l. \<not> (receives ev l \<and> is_once l)) (filter (\<lambda>l. A (handler l)) (listeners exec_start))
   = filter (\<lambda>l. A (handler l) \<and> \<not> fired ev (handler l)) (listeners exec_start)"
  unfolding filter_filter
  by (rule filter_cong [OF refl]) (cases ev; auto simp: exec_start_listeners receives_def)

lemma emit_filtered:
  assumes "listeners st = filter (\<lambda>l. A (handler l)) (listeners exec_start)"
  shows "emit ev st =
         fold (\<lambda>l. call (handler l) ev)
           (case ev of
              ChildError e \<Rightarrow> if A RejectExit then [\<lparr>target = Child, event_name = ''error'', handler = RejectExit, is_once = True\<rparr>] else []
            | ChildExit c \<Rightarrow> if A ResolveExit then [\<lparr>target = Child, event_name = ''exit'', handler = ResolveExit, is_once = True\<rparr>] else []
            | StdoutData b \<Rightarrow> if A PushStdout then [\<lparr>target = ChildStdout, event_name = ''data'', handler = PushStdout, is_once = False\<rparr>] else []
            | StdoutClose \<Rightarrow> if A CloseStdout then [\<lparr>target = ChildStdout, event_name = ''close'', handler = CloseStdout, is_once = True\<rparr>] else []
            | StderrData b \<Rightarrow> if A PushStderr then [\<lparr>target = ChildStderr, event_name = ''data'', handler = PushStderr, is_once = False\<rparr>] else []
            | StderrClose \<Rightarrow> if A CloseStderr then [\<lparr>target = ChildStderr, event_name = ''close'', handler = CloseStderr, is_once = True\<rparr>] else [])
           (st\<lparr>listeners := filter (\<lambda>l. A (handler l) \<and> \<not> fired ev (handler l)) (listeners exec_start)\<rparr>)"
  unfolding emit_def Let_def assms called_listeners kept_listeners by (rule refl)

lemma exec_settled_join:
  "exec_settled evs =
     (case promise_all3 (exit_settled evs) (stdout_settled evs) (stderr_settled evs) of
        Pending \<Rightarrow> Pending
      | Rejected e \<Rightarrow> Rejected e
      | Resolved (c, out, err) \<Rightarrow> Resolved \<lparr>exitCode = c, stdout = out, stderr = err\<rparr>)"
  by (simp add: exec_settled_def promise_all3_def exit_settled_def stdout_settled_def
      stderr_settled_def split: option.splits sum.splits)

lemma emit_inv:
  assumes "exec_inv evs st" and "\<forall>r. exec_settled evs \<noteq> Resolved r"
  shows "listeners (emit ev st)
           = filter (\<lambda>l. still_listening (evs @ [ev]) (handler l)) (listeners exec_start)"
    and "disposables (emit ev st) = disposables exec_start"
    and "exit_promise (emit ev st) = exit_settled (evs @ [ev])"
    and "stdout_promise (emit ev st) = stdout_settled (evs @ [ev])"
    and "stderr_promise (emit ev st) = stderr_settled (evs @ [ev])"
    and "StdoutClose \<in> set (evs @ [ev]) \<or> stdout_buffers (emit ev st) = stdout_chunks (evs @ [ev])"
    and "StderrClose \<in> set (evs @ [ev]) \<or> stderr_buffers (emit ev st) = stderr_chunks (evs @ [ev])"
    and "returned (emit ev st) = returned st"
proof -
  have ls: "listeners st = filter (\<lambda>l. still_listening evs (handler l)) (listeners exec_start)"
    using assms by (auto simp: exec_inv_def listeners_left_def split: promise.splits)
  have rest: "disposables st = disposables exec_start"
    "exit_promise st = exit_settled evs"
    "stdout_promise st = stdout_settled evs"
    "stderr_promise st = stderr_settled evs"
    "StdoutClose \<in> set evs \<or> stdout_buffers st = stdout_chunks evs"
    "StderrClose \<in> set evs \<or> stderr_buffers st = stderr_chunks evs"
    using assms(1) by (simp_all add: exec_inv_def)
  note em = emit_filtered [OF ls] still_listening_snoc
  note defs = first_exit_snoc first_exit_None still_listening_close_out still_listening_close_err
    still_listening_data exit_settled_def stdout_settled_def stderr_settled_def resolve_def reject_def
    stdout_chunks_append stderr_chunks_append stdout_text_closed stderr_text_closed
    stdout_text_close stderr_text_close
  show "listeners (emit ev st)
           = filter (\<lambda>l. still_listening (evs @ [ev]) (handler l)) (listeners exec_start)"
    by (cases ev) (simp_all add: em)
  show "disposables (emit ev st) = disposables exec_start"
    using rest(1) by (cases ev) (simp_all add: em)
  show "exit_promise (emit ev st) = exit_settled (evs @ [ev])"
    using rest(2)
    by (cases ev) (auto simp: em defs split: option.splits sum.splits dest: first_exit_error first_exit_code)
  show "stdout_promise (emit ev st) = stdout_settled (evs @ [ev])"
    using rest(3,5) by (cases ev) (auto simp: em defs)
  show "stderr_promise (emit ev st) = stderr_settled (evs @ [ev])"
    using rest(4,6) by (cases ev) (auto simp: em defs)
  show "StdoutClose \<in> set (evs @ [ev]) \<or> stdout_buffers (emit ev st) = stdout_chunks (evs @ [ev])"
    using rest(5) by (cases ev) (auto simp: em defs)
  show "StderrClose \<in> set (evs @ [ev]) \<or> stderr_buffers (emit ev st) = stderr_chunks (evs @ [ev])"
    using rest(6) by (cases ev) (auto simp: em defs)
  show "returned (emit ev st) = returned st"
    by (cases ev) (simp_all add: em)
qed

subsection \<open>The invariant\<close>

lemma exec_inv_start: "exec_inv [] exec_start"
  by (simp add: exec_inv_def listeners_left_def exec_settled_def exit_settled_def
      stdout_settled_def stderr_settled_def still_listening_def)
     (simp add: exec_start_def once_def on_def)

lemma emit_no_listeners:
  assumes "listeners st = []"
  shows "emit ev st = st"
  by (simp add: emit_def assms)

lemma exec_settled_Resolved:
  "exec_settled evs = Resolved r \<longleftrightarrow>
     (\<exists>c. first_exit evs = Some (Inr c) \<and> StdoutClose \<in> set evs \<and> StderrClose \<in> set evs
          \<and> r = \<lparr>exitCode = c, stdout = stdout_text evs, stderr = stderr_text evs\<rparr>)"
  by (auto simp: exec_settled_def split: option.splits sum.splits)

lemma exec_settled_Rejected:
  "exec_settled evs = Rejected e \<longleftrightarrow> first_exit evs = Some (Inl e)"
  by (auto simp: exec_settled_def split: option.splits sum.splits)

lemma join_Pending:
  "exec_settled evs = Pending \<Longrightarrow>
   promise_all3 (exit_settled evs) (stdout_settled evs) (stderr_settled evs) = Pending"
  using exec_settled_join [of evs] by (auto split: promise.splits prod.splits)

lemma join_Rejected:
  "exec_settled evs = Rejected e \<Longrightarrow>
   promise_all3 (exit_settled evs) (stdout_settled evs) (stderr_settled evs) = Rejected e"
  using exec_settled_join [of evs] by (auto split: promise.splits prod.splits)

lemma join_Resolved:
  "exec_settled evs = Resolved r \<Longrightarrow>
   promise_all3 (exit_settled evs) (stdout_settled evs) (stderr_settled evs)
     = Resolved (exitCode r, stdout r, stderr r)"
  using exec_settled_join [of evs] by (auto split: promise.splits prod.splits)

lemma exec_step_inv_resolved:
  assumes "exec_inv evs st" and "exec_settled evs = Resolved r"
  shows "exec_inv (evs @ [ev]) (exec_step ev st)"
proof -
  from assms(2) obtain c where c: "first_exit evs = Some (Inr c)"
    and closed: "StdoutClose \<in> set evs" "StderrClose \<in> set evs"
    by (auto simp: exec_settled_Resolved)
  have none: "listeners st = []" and ret: "returned st = Resolved r"
    using assms by (simp_all add: exec_inv_def listeners_left_def)
  have same: "exec_step ev st = st"
    by (simp add: exec_step_def emit_no_listeners [OF none] ret)
  have stable: "exec_settled (evs @ [ev]) = exec_settled evs"
    "exit_settled (evs @ [ev]) = exit_settled evs"
    "stdout_settled (evs @ [ev]) = stdout_settled evs"
    "stderr_settled (evs @ [ev]) = stderr_settled evs"
    using c closed
    by (simp_all add: exec_settled_def exit_settled_def stdout_settled_def stderr_settled_def
        first_exit_snoc stdout_text_closed stderr_text_closed)
  show ?thesis
    using assms closed by (simp add: same exec_inv_def stable listeners_left_def)
qed

lemma exec_step_inv_open:
  assumes "exec_inv evs st" and "\<forall>r. exec_settled evs \<noteq> Resolved r"
  shows "exec_inv (evs @ [ev]) (exec_step ev st)"
proof -
  note em = emit_inv [OF assms, of ev]
  let ?st = "emit ev st"
  let ?left = "filter (\<lambda>l. still_listening (evs @ [ev]) (handler l)) (listeners exec_start)"
  have ret: "returned ?st = exec_settled evs"
    using assms(1) em(8) by (simp add: exec_inv_def)
  have inv: "exec_inv (evs @ [ev]) st'"
    if "listeners st' = listeners_left (evs @ [ev])"
      and "returned st' = exec_settled (evs @ [ev])"
      and "disposables st' = disposables ?st" and "exit_promise st' = exit_promise ?st"
      and "stdout_promise st' = stdout_promise ?st" and "stderr_promise st' = stderr_promise ?st"
      and "stdout_buffers st' = stdout_buffers ?st" and "stderr_buffers st' = stderr_buffers ?st"
    for st'
    unfolding exec_inv_def that em(2,3,4,5) using em(6,7) by simp
  show ?thesis
  proof (cases "exec_settled evs")
    case Pending
    then have step: "exec_step ev st = exec_resume ?st"
      using ret by (simp add: exec_step_def Let_def)
    show ?thesis
    proof (cases "exec_settled (evs @ [ev])")
      case Pending
      then have "exec_resume ?st = ?st"
        by (simp add: exec_resume_def em(3,4,5) join_Pending)
      moreover have "listeners_left (evs @ [ev]) = ?left"
        using Pending by (simp add: listeners_left_def)
      ultimately show ?thesis
        unfolding step using Pending ret \<open>exec_settled evs = Pending\<close>
        by (intro inv) (simp_all add: em(1))
    next
      case (Rejected e)
      then have "exec_resume ?st = ?st\<lparr>returned := Rejected e\<rparr>"
        by (simp add: exec_resume_def em(3,4,5) join_Rejected)
      moreover have "listeners_left (evs @ [ev]) = ?left"
        using Rejected by (simp add: listeners_left_def)
      ultimately show ?thesis
        unfolding step using Rejected
        by (intro inv) (simp_all add: em(1))
    next
      case (Resolved r)
      then have "exec_resume ?st
                 = ?st\<lparr>listeners := dispose (disposables ?st) (listeners ?st), returned := Resolved r\<rparr>"
        by (simp add: exec_resume_def em(3,4,5) join_Resolved)
      moreover have "dispose (disposables ?st) (listeners ?st) = []"
        unfolding em(1,2) by (rule dispose_all)
      moreover have "listeners_left (evs @ [ev]) = []"
        using Resolved by (simp add: listeners_left_def)
      ultimately show ?thesis
        unfolding step using Resolved
        by (intro inv) simp_all
    qed
  next
    case (Rejected e)
    then have step: "exec_step ev st = ?st"
      using ret by (simp add: exec_step_def Let_def)
    have still: "exec_settled (evs @ [ev]) = Rejected e"
      using Rejected by (simp add: exec_settled_Rejected first_exit_snoc)
    then have "listeners_left (evs @ [ev]) = ?left"
      by (simp add: listeners_left_def)
    then show ?thesis
      unfolding step using still ret Rejected
      by (intro inv) (simp_all add: em(1))
  next
    case (Resolved r)
    with assms(2) show ?thesis by simp
  qed
qed

lemma exec_step_inv:
  "exec_inv evs st \<Longrightarrow> exec_inv (evs @ [ev]) (exec_step ev st)"
  by (cases "\<exists>r. exec_settled evs = Resolved r")
     (auto intro: exec_step_inv_resolved exec_step_inv_open)

lemma exec_inv_exec: "exec_inv evs (exec evs)"
proof (induction evs rule: rev_induct)
  case Nil
  show ?case by (simp add: exec_def exec_inv_start)
next
  case (snoc ev evs)
  then show ?case
    using exec_step_inv [of evs "exec evs" ev] by (simp add: exec_def)
qed

text \<open>
  The promise that \<^verbatim>\<open>exec\<close> returns and the listeners it leaves attached, for every list
  of events.
\<close>

lemma exec_returned: "returned (exec evs) = exec_settled evs"
  using exec_inv_exec [of evs] by (simp add: exec_inv_def)

lemma exec_listeners: "listeners (exec evs) = listeners_left evs"
  using exec_inv_exec [of evs] by (simp add: exec_inv_def)

text \<open>
  When \<^verbatim>\<open>exec\<close> returns a result it has released every listener.
\<close>

lemma exec_releases_on_success:
  "returned (exec evs) = Resolved r \<Longrightarrow> listeners (exec evs) = []"
  by (simp add: exec_returned exec_listeners listeners_left_def)

text \<open>
  When \<^verbatim>\<open>exec\<close> fails the two \<^verbatim>\<open>data\<close> listeners stay attached, whatever follows.
\<close>

lemma exec_keeps_data_listeners_on_failure:
  assumes "returned (exec evs) = Rejected e"
  shows "\<lparr>target = ChildStdout, event_name = ''data'', handler = PushStdout, is_once = False\<rparr>
           \<in> set (listeners (exec evs))"
    and "\<lparr>target = ChildStderr, event_name = ''data'', handler = PushStderr, is_once = False\<rparr>
           \<in> set (listeners (exec evs))"
  using assms
  by (simp_all add: exec_returned exec_listeners listeners_left_def exec_start_listeners
      still_listening_data)

subsection \<open>\<^verbatim>\<open>exec\<close> over any child\<close>

lemma call_returned: "returned (call h ev st) = returned st"
  by (induction h ev st rule: call.induct) simp_all

lemma emit_returned: "returned (emit ev st) = returned st"
proof -
  have calls: "returned (fold (\<lambda>l. call (handler l) ev) ls st') = returned st'" for ls st'
    by (induction ls arbitrary: st') (simp_all add: call_returned)
  show ?thesis
    by (simp add: emit_def Let_def calls)
qed

lemma exec_step_settled: "returned st \<noteq> Pending \<Longrightarrow> returned (exec_step ev st) = returned st"
  by (simp add: exec_step_def Let_def emit_returned)

lemma fold_exec_step_settled:
  "returned st \<noteq> Pending \<Longrightarrow> returned (fold exec_step evs st) = returned st"
  by (induction evs arbitrary: st) (simp_all add: exec_step_settled)

text \<open>With both output streams the general run is the run over the events.\<close>

lemma exec_on_pipes:
  assumes "has_stdout child" and "has_stderr child"
  shows "exec_on child = exec (emitted child)"
proof -
  have "exec_start_on child = exec_start"
    using assms by (simp add: exec_start_on_def exec_start_def Let_def)
  moreover have "exec_resume exec_start = exec_start"
    by (simp add: exec_resume_def exec_start_def once_def on_def promise_all3_def)
  ultimately show ?thesis
    by (simp add: exec_on_def exec_def)
qed

text \<open>Without one of them \<^verbatim>\<open>exec\<close> fails with the type error, whatever the events.\<close>

lemma exec_on_no_pipe:
  assumes "\<not> (has_stdout child \<and> has_stderr child)"
  shows "returned (exec_on child) = Rejected null_stream_error"
proof -
  have "returned (exec_resume (exec_start_on child)) = Rejected null_stream_error"
    using assms
    by (auto simp: exec_resume_def exec_start_on_def once_def on_def promise_all3_def Let_def)
  then show ?thesis
    by (simp add: exec_on_def fold_exec_step_settled)
qed

lemma exec_on_returned:
  "returned (exec_on child)
   = (if has_stdout child \<and> has_stderr child then exec_settled (emitted child)
      else Rejected null_stream_error)"
  using exec_on_pipes [of child] exec_on_no_pipe [of child]
  by (auto simp: exec_returned)

subsection \<open>The outcome of \<^verbatim>\<open>Git._exec\<close>\<close>

lemma Git_spawn_Inr:
  "gitPath \<noteq> [] \<Longrightarrow> \<exists>out req. Git_spawn gitPath penv args opts = Inr (out, req)"
  by (simp add: Git_spawn_def Let_def)

lemma Git_exec_awaited_pipes:
  assumes "Git_spawn gitPath penv args opts = Inr (out, req)"
    and "has_stdout (cp_spawn req)" and "has_stderr (cp_spawn req)"
    and "input_given opts \<longrightarrow> has_stdin (cp_spawn req)"
  shows "Git_exec_awaited cp_spawn gitPath penv args opts = (out, exec_settled (emitted (cp_spawn req)))"
  using assms by (auto simp: Git_exec_awaited_def Let_def exec_on_returned)

lemma Git_exec_awaited_Resolved:
  assumes "snd (Git_exec_awaited cp_spawn gitPath penv args opts) = Resolved r"
  shows "\<exists>out req. Git_spawn gitPath penv args opts = Inr (out, req)
           \<and> exec_settled (emitted (cp_spawn req)) = Resolved r"
  using assms
  by (auto simp: Git_exec_awaited_def Let_def exec_on_returned split: sum.splits if_splits)

text \<open>
  A child without one of its output streams, as a caller's \<^verbatim>\<open>stdio\<close> of \<^verbatim>\<open>'ignore'\<close>
  or \<^verbatim>\<open>'inherit'\<close> gives, makes the call reject with the type error.
\<close>

lemma Git_exec_inner_no_pipe:
  assumes "Git_spawn gitPath penv args opts = Inr (out, req)"
    and "\<not> (has_stdout (cp_spawn req) \<and> has_stderr (cp_spawn req))"
  shows "Git_exec_inner cp_spawn gitPath penv args opts = (out, Rejected (Thrown null_stream_error))"
  using assms by (auto simp: Git_exec_inner_def Git_exec_awaited_def Let_def exec_on_returned)

text \<open>The \<^verbatim>\<open>if\<close> chain of the classification in terms of the texts that occur.\<close>

lemma gitErrorCode_of_occurs:
  "gitErrorCode_of err =
     (if (\<exists>a b. err = a @ ''Authentication failed'' @ b) then Some ''AuthenticationFailed''
      else if (\<exists>a b. err = a @ ''Not a git repository'' @ b) then Some ''NotAGitRepository''
      else if (\<exists>a b. err = a @ ''bad config file'' @ b) then Some ''BadConfigFile''
      else if (\<exists>a b. err = a @ ''cannot make pipe for command substitution'' @ b)
              \<or> (\<exists>a b. err = a @ ''cannot create standard input pipe'' @ b) then Some ''CantCreatePipe''
      else if (\<exists>a b. err = a @ ''Repository not found'' @ b) then Some ''RepositoryNotFound''
      else if (\<exists>a b. err = a @ ''unable to access'' @ b) then Some ''CantAccessRemote''
      else None)"
  unfolding gitErrorCode_of_def regex_test_iff AuthenticationFailed_def NotAGitRepository_def
    BadConfigFile_def CantCreatePipe_def RepositoryNotFound_def CantAccessRemote_def
  by (rule refl)

subsection \<open>Claims about the process runner\<close>

text \<open>
  Claim C1 as stated has every failure of the call be a \<^verbatim>\<open>GitError\<close>, a failure to spawn
  included. The code builds a \<^verbatim>\<open>GitError\<close> in one place, after a non-zero exit code; an
  \<^verbatim>\<open>error\<close> event of the child rejects the join with the error of the child, and
  \<^verbatim>\<open>Git._exec\<close> passes that rejection on as it is.
\<close>

theorem spawn_failure_not_GitError_counterexample:
  "Git_exec_inner
     (\<lambda>req. \<lparr>has_stdin = False, has_stdout = True, has_stderr = True,
              emitted = [ChildError (JsError ''spawn git ENOENT'')]\<rparr>)
     ''git'' Map.empty [''status''] \<lparr>cwd = None, env = None, input = None, log = None, stdio = None\<rparr>
   = ([''git status'' @ [CHR 0x0A]], Rejected (Thrown (JsError ''spawn git ENOENT'')))"
  by (simp add: Git_exec_inner_def Git_exec_awaited_def Git_spawn_def Let_def stdio_given_def
      input_given_def exec_on_returned exec_settled_def)

text \<open>
  Claim C1, amended. For every invocation of \<^verbatim>\<open>Git._exec\<close> or \<^verbatim>\<open>Repository.exec\<close>: on a
  handle with no path the call rejects with the plain error that \<^verbatim>\<open>spawn\<close> throws. On a
  child that has its two output pipes, and its input pipe when there is input to write,
  the outcome is fixed by the first of the events \<^verbatim>\<open>error\<close> and \<^verbatim>\<open>exit\<close> of the child:
  after an \<^verbatim>\<open>error\<close> event the call rejects with that plain error, which is not a
  \<^verbatim>\<open>GitError\<close>; after an exit with a numeric code, once both output streams have closed,
  the call returns an \<^verbatim>\<open>IExecutionResult\<close> with the buffered output if the code is 0 and
  rejects with a \<^verbatim>\<open>GitError\<close> carrying the code and the buffered output if the code is not
  0; until then the call is pending. So a result is never returned for a non-zero exit
  code and a \<^verbatim>\<open>GitError\<close> is produced only for a non-zero exit code. \<^verbatim>\<open>Repository.exec\<close>
  is \<^verbatim>\<open>Git._exec\<close> on the options completed with the environment and the root of the
  repository. The theorem also records what the code does with the exit code \<^verbatim>\<open>null\<close> of
  a child that a signal ended.
\<close>

theorem Git_exec_outcomes:
  "snd (Git_exec_inner cp_spawn [] penv args opts)
     = Rejected (Thrown (JsError ''git could not be found in the system.''))
   \<and> (\<forall>out req.
        Git_spawn gitPath penv args opts = Inr (out, req)
        \<and> has_stdout (cp_spawn req) \<and> has_stderr (cp_spawn req)
        \<and> (input_given opts \<longrightarrow> has_stdin (cp_spawn req))
        \<longrightarrow> snd (Git_exec_inner cp_spawn gitPath penv args opts) =
            (case first_exit (emitted (cp_spawn req)) of
               None \<Rightarrow> Pending
             | Some (Inl e) \<Rightarrow> Rejected (Thrown e)
             | Some (Inr code) \<Rightarrow>
                 if StdoutClose \<in> set (emitted (cp_spawn req)) \<and> StderrClose \<in> set (emitted (cp_spawn req))
                 then (case code of
                         None \<Rightarrow>
                           Resolved \<lparr>exitCode = None, stdout = stdout_text (emitted (cp_spawn req)),
                                     stderr = stderr_text (emitted (cp_spawn req))\<rparr>
                       | Some c \<Rightarrow>
                           if c = 0
                           then Resolved \<lparr>exitCode = Some 0, stdout = stdout_text (emitted (cp_spawn req)),
                                          stderr = stderr_text (emitted (cp_spawn req))\<rparr>
                           else Rejected (Failed
                                  \<lparr>error = None, message = ''Failed to execute git'',
                                   gitStdout = Some (stdout_text (emitted (cp_spawn req))),
                                   gitStderr = Some (stderr_text (emitted (cp_spawn req))),
                                   gitExitCode = Some c,
                                   gitErrorCode = gitErrorCode_of (stderr_text (emitted (cp_spawn req))),
                                   gitCommand = (case args of [] \<Rightarrow> None | a # _ \<Rightarrow> Some a)\<rparr>))
                 else Pending))
   \<and> Repository_exec cp_spawn repo penv args opts
       = Git_exec_inner cp_spawn (git repo) penv args
           (opts\<lparr>env := Some ((case env opts of None \<Rightarrow> Map.empty | Some m \<Rightarrow> m) ++ repository_env repo),
                 cwd := Some (case cwd opts of None \<Rightarrow> repositoryRoot repo | Some d \<Rightarrow> d)\<rparr>)"
proof (intro conjI allI impI)
  show "snd (Git_exec_inner cp_spawn [] penv args opts)
        = Rejected (Thrown (JsError ''git could not be found in the system.''))"
    by (simp add: Git_exec_inner_def Git_exec_awaited_def Git_spawn_def)
next
  fix out req
  assume "Git_spawn gitPath penv args opts = Inr (out, req)
          \<and> has_stdout (cp_spawn req) \<and> has_stderr (cp_spawn req)
          \<and> (input_given opts \<longrightarrow> has_stdin (cp_spawn req))"
  then have "Git_exec_awaited cp_spawn gitPath penv args opts
             = (out, exec_settled (emitted (cp_spawn req)))"
    by (intro Git_exec_awaited_pipes) simp_all
  then show "snd (Git_exec_inner cp_spawn gitPath penv args opts) =
            (case first_exit (emitted (cp_spawn req)) of
               None \<Rightarrow> Pending
             | Some (Inl e) \<Rightarrow> Rejected (Thrown e)
             | Some (Inr code) \<Rightarrow>
                 if StdoutClose \<in> set (emitted (cp_spawn req)) \<and> StderrClose \<in> set (emitted (cp_spawn req))
                 then (case code of
                         None \<Rightarrow>
                           Resolved \<lparr>exitCode = None, stdout = stdout_text (emitted (cp_spawn req)),
                                     stderr = stderr_text (emitted (cp_spawn req))\<rparr>
                       | Some c \<Rightarrow>
                           if c = 0
                           then Resolved \<lparr>exitCode = Some 0, stdout = stdout_text (emitted (cp_spawn req)),
                                          stderr = stderr_text (emitted (cp_spawn req))\<rparr>
                           else Rejected (Failed
                                  \<lparr>error = None, message = ''Failed to execute git'',
                                   gitStdout = Some (stdout_text (emitted (cp_spawn req))),
                                   gitStderr = Some (stderr_text (emitted (cp_spawn req))),
                                   gitExitCode = Some c,
                                   gitErrorCode = gitErrorCode_of (stderr_text (emitted (cp_spawn req))),
                                   gitCommand = (case args of [] \<Rightarrow> None | a # _ \<Rightarrow> Some a)\<rparr>))
                 else Pending)"
    by (simp add: Git_exec_inner_def exec_settled_def code_truthy_def new_GitError_def or_string_def
        split: option.splits sum.splits)
next
  show "Repository_exec cp_spawn repo penv args opts
       = Git_exec_inner cp_spawn (git repo) penv args
           (opts\<lparr>env := Some ((case env opts of None \<Rightarrow> Map.empty | Some m \<Rightarrow> m) ++ repository_env repo),
                 cwd := Some (case cwd opts of None \<Rightarrow> repositoryRoot repo | Some d \<Rightarrow> d)\<rparr>)"
    by (simp add: Repository_exec_def Git_exec_def split: option.splits)
qed

text \<open>
  The theorem at a child that writes two chunks and exits with 0, and at one that exits
  with 1.
\<close>

theorem Git_exec_outcomes_witness:
  "snd (Git_exec_inner
          (\<lambda>req. \<lparr>has_stdin = False, has_stdout = True, has_stderr = True,
              emitted = [StdoutData ''Tom'', StdoutData '' Riddle'', ChildExit (Some 0),
                         StdoutClose, StderrClose]\<rparr>)
          ''git'' Map.empty [''config'', ''--get'', ''user.name''] \<lparr>cwd = None, env = None, input = None, log = None, stdio = None\<rparr>)
     = Resolved \<lparr>exitCode = Some 0, stdout = ''Tom Riddle'', stderr = ''''\<rparr>
   \<and> snd (Git_exec_inner
          (\<lambda>req. \<lparr>has_stdin = False, has_stdout = True, has_stderr = True,
              emitted = [ChildExit (Some 1), StdoutClose, StderrClose]\<rparr>)
          ''git'' Map.empty [''config'', ''--get'', ''user.name''] \<lparr>cwd = None, env = None, input = None, log = None, stdio = None\<rparr>)
     = Rejected (Failed \<lparr>error = None, message = ''Failed to execute git'', gitStdout = Some '''',
                         gitStderr = Some '''', gitExitCode = Some 1, gitErrorCode = None,
                         gitCommand = Some ''config''\<rparr>)"
  using Git_exec_outcomes [where gitPath = "''git''" and penv = Map.empty
      and args = "[''config'', ''--get'', ''user.name'']" and opts = "\<lparr>cwd = None, env = None, input = None, log = None, stdio = None\<rparr>"
      and cp_spawn = "(\<lambda>req. \<lparr>has_stdin = False, has_stdout = True, has_stderr = True,
              emitted = [StdoutData ''Tom'', StdoutData '' Riddle'', ChildExit (Some 0),
                         StdoutClose, StderrClose]\<rparr>)"]
    Git_exec_outcomes [where gitPath = "''git''" and penv = Map.empty
      and args = "[''config'', ''--get'', ''user.name'']" and opts = "\<lparr>cwd = None, env = None, input = None, log = None, stdio = None\<rparr>"
      and cp_spawn = "(\<lambda>req. \<lparr>has_stdin = False, has_stdout = True, has_stderr = True,
              emitted = [ChildExit (Some 1), StdoutClose, StderrClose]\<rparr>)"]
  by (simp add: Git_spawn_def Let_def input_given_def stdout_text_def stderr_text_def
      gitErrorCode_of_def)

text \<open>
  Claim C2 as stated lets the caller's overrides win over the two fixed variables. In
  \<^verbatim>\<open>Git.spawn\<close> the fixed variables are the last source of \<^verbatim>\<open>Object.assign\<close>: a caller
  who sets \<^verbatim>\<open>LANG\<close> gets the fixed locale all the same.
\<close>

theorem fixed_env_wins_counterexample:
  "spawn_env Map.empty [''status'']
     \<lparr>cwd = None, env = Some [''LANG'' \<mapsto> JStr ''C''], input = None, log = None, stdio = None\<rparr> ''LANG''
     = Some (JStr ''en_US.UTF-8'')
   \<and> ((Map.empty ++ fixed_env [''status'']) ++ [''LANG'' \<mapsto> JStr ''C'']) ''LANG'' = Some (JStr ''C'')"
  by (simp add: spawn_env_def fixed_env_def)

text \<open>
  Claim C2, amended. For every invocation of \<^verbatim>\<open>Git.spawn\<close> on a handle with a path and
  every map of overrides, the environment of the subprocess is the inherited environment
  overlaid with the caller's overrides overlaid with the two fixed variables
  \<^verbatim>\<open>VSCODE_GIT_COMMAND\<close> and \<^verbatim>\<open>LANG\<close>: where an override and a fixed variable set the same
  key the fixed value wins, and an override wins over an inherited variable.
\<close>

theorem spawn_environment:
  assumes "gitPath \<noteq> []"
  shows "\<exists>out req. Git_spawn gitPath penv args opts = Inr (out, req)
          \<and> env (options req)
              = Some ((penv ++ (case env opts of None \<Rightarrow> Map.empty | Some m \<Rightarrow> m)) ++ fixed_env args)
          \<and> env (options req)
              = Some (\<lambda>k. if k = ''LANG'' then Some (JStr ''en_US.UTF-8'')
                          else if k = ''VSCODE_GIT_COMMAND''
                               then Some (case args of [] \<Rightarrow> JUndefined | a # _ \<Rightarrow> JStr a)
                          else (case (case env opts of None \<Rightarrow> Map.empty | Some m \<Rightarrow> m) k of
                                  Some v \<Rightarrow> Some v
                                | None \<Rightarrow> penv k))"
proof -
  have "(penv ++ (case env opts of None \<Rightarrow> Map.empty | Some m \<Rightarrow> m)) ++ fixed_env args
        = (\<lambda>k. if k = ''LANG'' then Some (JStr ''en_US.UTF-8'')
                else if k = ''VSCODE_GIT_COMMAND''
                     then Some (case args of [] \<Rightarrow> JUndefined | a # _ \<Rightarrow> JStr a)
                else (case (case env opts of None \<Rightarrow> Map.empty | Some m \<Rightarrow> m) k of
                        Some v \<Rightarrow> Some v
                      | None \<Rightarrow> penv k))"
    by (rule ext) (simp add: fixed_env_def map_add_def split: option.splits)
  then show ?thesis
    using assms by (simp add: Git_spawn_def Let_def spawn_env_def)
qed

text \<open>
  The theorem at an inherited environment and overrides that both set \<^verbatim>\<open>LANG\<close>.
\<close>

theorem spawn_environment_witness:
  "\<exists>out req. Git_spawn ''git'' [''HOME'' \<mapsto> JStr ''/root'', ''LANG'' \<mapsto> JStr ''de_DE'']
                [''status'', ''-z'']
                \<lparr>cwd = None, env = Some [''LANG'' \<mapsto> JStr ''C'', ''GIT_DIR'' \<mapsto> JStr ''.git''],
                 input = None, log = None, stdio = None\<rparr> = Inr (out, req)
     \<and> map_option (\<lambda>m. map m [''HOME'', ''GIT_DIR'', ''LANG'', ''VSCODE_GIT_COMMAND'', ''OTHER'']) (env (options req))
         = Some [Some (JStr ''/root''), Some (JStr ''.git''), Some (JStr ''en_US.UTF-8''),
                 Some (JStr ''status''), None]"
  using spawn_environment [of "''git''" "[''HOME'' \<mapsto> JStr ''/root'', ''LANG'' \<mapsto> JStr ''de_DE'']"
      "[''status'', ''-z'']"
      "\<lparr>cwd = None, env = Some [''LANG'' \<mapsto> JStr ''C'', ''GIT_DIR'' \<mapsto> JStr ''.git''],
        input = None, log = None, stdio = None\<rparr>"]
  by (auto simp: fixed_env_def map_add_def)

text \<open>
  Claim C7. For every invocation with a non-zero exit code, that is whenever the result
  that \<^verbatim>\<open>Git._exec\<close> awaits has an exit code other than 0, the call rejects with a
  \<^verbatim>\<open>GitError\<close> whose kind is fixed by the texts that occur in the captured standard error,
  tried in the order AuthenticationFailed, NotAGitRepository, BadConfigFile, CantCreatePipe,
  RepositoryNotFound, CantAccessRemote: the first kind with a text that occurs wins, and
  the kind is unset when none occurs. The captured standard output, the captured standard
  error and the exit code are attached in either case; the captured texts are what the
  child wrote to its streams before they closed.
\<close>

theorem stderr_classification:
  assumes "snd (Git_exec_awaited cp_spawn gitPath penv args opts) = Resolved r"
    and "exitCode r = Some c" and "c \<noteq> 0"
  shows "\<exists>ge. snd (Git_exec_inner cp_spawn gitPath penv args opts) = Rejected (Failed ge)
     \<and> gitErrorCode ge =
         (if (\<exists>a b. stderr r = a @ ''Authentication failed'' @ b) then Some ''AuthenticationFailed''
          else if (\<exists>a b. stderr r = a @ ''Not a git repository'' @ b) then Some ''NotAGitRepository''
          else if (\<exists>a b. stderr r = a @ ''bad config file'' @ b) then Some ''BadConfigFile''
          else if (\<exists>a b. stderr r = a @ ''cannot make pipe for command substitution'' @ b)
                  \<or> (\<exists>a b. stderr r = a @ ''cannot create standard input pipe'' @ b)
               then Some ''CantCreatePipe''
          else if (\<exists>a b. stderr r = a @ ''Repository not found'' @ b) then Some ''RepositoryNotFound''
          else if (\<exists>a b. stderr r = a @ ''unable to access'' @ b) then Some ''CantAccessRemote''
          else None)
     \<and> gitStdout ge = Some (stdout r)
     \<and> gitStderr ge = Some (stderr r)
     \<and> gitExitCode ge = Some c
     \<and> (\<exists>out req. Git_spawn gitPath penv args opts = Inr (out, req)
           \<and> first_exit (emitted (cp_spawn req)) = Some (Inr (Some c))
           \<and> stdout r = stdout_text (emitted (cp_spawn req))
           \<and> stderr r = stderr_text (emitted (cp_spawn req)))"
proof -
  from Git_exec_awaited_Resolved [OF assms(1)] obtain out req
    where sp: "Git_spawn gitPath penv args opts = Inr (out, req)"
      and settled: "exec_settled (emitted (cp_spawn req)) = Resolved r"
    by blast
  from settled assms(2) have events: "first_exit (emitted (cp_spawn req)) = Some (Inr (Some c))"
    "stdout r = stdout_text (emitted (cp_spawn req))"
    "stderr r = stderr_text (emitted (cp_spawn req))"
    by (auto simp: exec_settled_Resolved)
  obtain lines where aw: "Git_exec_awaited cp_spawn gitPath penv args opts = (lines, Resolved r)"
    using assms(1) by (cases "Git_exec_awaited cp_spawn gitPath penv args opts") simp
  let ?ge = "new_GitError
               \<lparr>data_error = None, data_message = Some ''Failed to execute git'',
                data_stdout = Some (stdout r), data_stderr = Some (stderr r),
                data_exitCode = exitCode r, data_gitErrorCode = gitErrorCode_of (stderr r),
                data_gitCommand = (case args of [] \<Rightarrow> None | a # _ \<Rightarrow> Some a)\<rparr>"
  have "snd (Git_exec_inner cp_spawn gitPath penv args opts) = Rejected (Failed ?ge)"
    using assms(2,3) by (simp add: Git_exec_inner_def aw code_truthy_def)
  moreover have "gitErrorCode ?ge = gitErrorCode_of (stderr r)"
    "gitStdout ?ge = Some (stdout r)" "gitStderr ?ge = Some (stderr r)" "gitExitCode ?ge = Some c"
    using assms(2) by (simp_all add: new_GitError_def)
  ultimately show ?thesis
    unfolding gitErrorCode_of_occurs [symmetric] using sp events by blast
qed

text \<open>
  The theorem at a standard error text in which the texts of two kinds occur.
\<close>

theorem stderr_classification_witness:
  "\<exists>ge. snd (Git_exec_inner
              (\<lambda>req. \<lparr>has_stdin = False, has_stdout = True, has_stderr = True,
              emitted = [StderrData ''fatal: unable to access: Authentication failed'',
                         ChildExit (Some 128), StdoutClose, StderrClose]\<rparr>)
              ''git'' Map.empty [''fetch''] \<lparr>cwd = None, env = None, input = None, log = None, stdio = None\<rparr>) = Rejected (Failed ge)
        \<and> gitErrorCode ge = Some ''AuthenticationFailed''
        \<and> gitStderr ge = Some ''fatal: unable to access: Authentication failed''
        \<and> gitExitCode ge = Some 128"
proof -
  let ?cp = "(\<lambda>req. \<lparr>has_stdin = False, has_stdout = True, has_stderr = True,
              emitted = [StderrData ''fatal: unable to access: Authentication failed'',
                         ChildExit (Some 128), StdoutClose, StderrClose]\<rparr>)"
  let ?r = "\<lparr>exitCode = Some 128, stdout = '''',
             stderr = ''fatal: unable to access: Authentication failed''\<rparr>"
  have aw: "snd (Git_exec_awaited ?cp ''git'' Map.empty [''fetch''] \<lparr>cwd = None, env = None, input = None, log = None, stdio = None\<rparr>) = Resolved ?r"
    by (simp add: Git_exec_awaited_def Git_spawn_def Let_def input_given_def exec_on_returned
        exec_settled_def stdout_text_def stderr_text_def)
  have code: "exitCode ?r = Some 128" and nonzero: "(128 :: int) \<noteq> 0"
    by simp_all
  have "\<exists>a b. ''fatal: unable to access: Authentication failed'' = a @ ''Authentication failed'' @ b"
    unfolding regex_test_iff [symmetric] by simp
  then have occurs:
    "(\<exists>a b. ''fatal: unable to access: Authentication failed'' = a @ ''Authentication failed'' @ b) = True"
    by (rule eqTrueI)
  note at_input = stderr_classification [OF aw code nonzero,
      unfolded IExecutionResult.select_convs occurs if_True]
  then show ?thesis
    by blast
qed

text \<open>
  Claim C9 says that the listeners of an invocation of \<^verbatim>\<open>exec\<close> are released when the
  join settles, on success and on failure. \<^verbatim>\<open>dispose(disposables)\<close> stands after the
  \<^verbatim>\<open>await\<close> with no \<^verbatim>\<open>finally\<close>: when the child emits \<^verbatim>\<open>error\<close> the join is rejected,
  the function fails, and five of its six listeners are still attached.
\<close>

theorem exec_leaks_listeners_on_error:
  "returned (exec [ChildError (JsError ''spawn git ENOENT'')]) = Rejected (JsError ''spawn git ENOENT'')
   \<and> listeners (exec [ChildError (JsError ''spawn git ENOENT'')])
       = [\<lparr>target = Child, event_name = ''exit'', handler = ResolveExit, is_once = True\<rparr>,
          \<lparr>target = ChildStdout, event_name = ''data'', handler = PushStdout, is_once = False\<rparr>,
          \<lparr>target = ChildStdout, event_name = ''close'', handler = CloseStdout, is_once = True\<rparr>,
          \<lparr>target = ChildStderr, event_name = ''data'', handler = PushStderr, is_once = False\<rparr>,
          \<lparr>target = ChildStderr, event_name = ''close'', handler = CloseStderr, is_once = True\<rparr>]"
  by (simp add: exec_returned exec_listeners exec_settled_def listeners_left_def
      exec_start_listeners still_listening_def)

section \<open>Properties of \<^verbatim>\<open>Repository.config\<close> and \<^verbatim>\<open>findGit\<close>\<close>

text \<open>
  Claim C10. For every call of \<^verbatim>\<open>Repository.config\<close> with a falsy value, the empty string
  among them, the value is left out of the argument list, which is then the argument list
  of a call with no value: \<^verbatim>\<open>config\<close>, the scope option if a scope is given, and the key.
\<close>

theorem config_falsy_value_omitted:
  assumes "\<not> truthy v"
  shows "config_args scope key v = config_args scope key JUndefined
         \<and> config_args scope key v
             = [JStr ''config''] @ (if scope \<noteq> [] then [JStr (''--'' @ scope)] else []) @ [JStr key]"
  using assms by (simp add: config_args_def)

text \<open>
  The theorem at the empty string.
\<close>

theorem config_falsy_value_omitted_witness:
  "config_args ''local'' ''user.email'' (JStr '''') = config_args ''local'' ''user.email'' JUndefined
   \<and> config_args ''local'' ''user.email'' (JStr '''')
       = [JStr ''config'', JStr ''--local'', JStr ''user.email'']"
  using config_falsy_value_omitted [of "JStr ''''" "''local''" "''user.email''"]
  by (simp add: config_args_def)

text \<open>
  Claim C3 as stated has \<^verbatim>\<open>findGit\<close> fail, with no further search, when the hint cannot
  be spawned. The rejection handler of \<^verbatim>\<open>findGit\<close> runs after a failed hint as it does
  after no hint: on a host where the hint is missing and \<^verbatim>\<open>git\<close> is on the search path,
  the hint is probed, then \<^verbatim>\<open>git\<close>, and \<^verbatim>\<open>findGit\<close> succeeds.
\<close>

theorem hint_failure_falls_through_counterexample:
  "snd (findSpecificGit example_host ''/opt/missing/git'') = Inl (RejectedError (JsError ''spawn ENOENT''))
   \<and> findGit example_host (Some ''/opt/missing/git'')
       = ([Spawn ''/opt/missing/git'', Spawn ''git''], Inr \<lparr>git_path = ''git'', version = ''2.9.0''\<rparr>)"
  by (simp add: findGit_def findSpecificGit_def example_host_def or_else_def platform_search_def
      parseVersion_def trim_def is_space_def code_truthy_def)

text \<open>
  Claim C3, amended. For every hint that is supplied and whose version query fails,
  \<^verbatim>\<open>findGit\<close> goes on to the discovery strategy of the platform: after the probe of the
  hint it makes the probes of that strategy, and its result is the result of that
  strategy.
\<close>

theorem findGit_hint_failure:
  assumes "hint \<noteq> []" and "snd (findSpecificGit h hint) = Inl e"
  shows "findGit h (Some hint) = (Spawn hint # fst (platform_search h), snd (platform_search h))"
  using assms by (simp add: findGit_def or_else_def) (simp add: findSpecificGit_def)

text \<open>
  The theorem at the host and the hint of the example above.
\<close>

theorem findGit_hint_failure_witness:
  "findGit example_host (Some ''/opt/missing/git'')
   = (Spawn ''/opt/missing/git'' # fst (platform_search example_host), snd (platform_search example_host))"
  using findGit_hint_failure [of "''/opt/missing/git''" example_host "RejectedError (JsError ''spawn ENOENT'')"]
  by (simp add: findSpecificGit_def example_host_def)

end
